theory Spec2Isabelle
  imports Complex_Main
begin

section \<open>Errors as values\<close>

text \<open>
  Every exception the modelled Python code can raise is a constructor of \<open>error\<close>; a
  computation that may raise returns \<open>error + 'a\<close>, with \<open>Inl\<close> carrying the exception.
\<close>

datatype error =
    IndexError
  | KeyError
  | ValueError
  | RuntimeError
  | AssertionError
  | FileExistsError
  | FileNotFoundError
  | IsADirectoryError
  | NotADirectoryError

definition bind_err :: "error + 'a \<Rightarrow> ('a \<Rightarrow> error + 'b) \<Rightarrow> error + 'b" where
  "bind_err m f = (case m of Inl e \<Rightarrow> Inl e | Inr x \<Rightarrow> f x)"

fun map_err :: "('a \<Rightarrow> error + 'b) \<Rightarrow> 'a list \<Rightarrow> error + 'b list" where
  "map_err f [] = Inr []"
| "map_err f (x # xs) =
     (case f x of
        Inl e \<Rightarrow> Inl e
      | Inr y \<Rightarrow> (case map_err f xs of Inl e \<Rightarrow> Inl e | Inr ys \<Rightarrow> Inr (y # ys)))"

section \<open>Tensors (src/src/metrics.py)\<close>

text \<open>
  A torch tensor is its shape and its elements in row-major (C) order. Elements are
  real numbers: rounding of 32-bit floats is not modelled, the one non-finite outcome the
  code can produce from finite inputs (a division by a zero element count) is.
\<close>

record tensor =
  shape :: "nat list"
  data :: "real list"

definition wf_tensor :: "tensor \<Rightarrow> bool" where
  "wf_tensor t = (length (data t) = prod_list (shape t))"

datatype torch_float = Finite real | PosInf | NegInf | NaN

text \<open>Division of two finite floats, as \<open>torch.div\<close> (IEEE 754) defines it at a zero divisor.\<close>

definition torch_div :: "real \<Rightarrow> real \<Rightarrow> torch_float" where
  "torch_div a b =
     (if b \<noteq> 0 then Finite (a / b)
      else if a = 0 then NaN
      else if 0 < a then PosInf
      else NegInf)"

text \<open>Python index normalisation on an axis of length \<open>n\<close>: negative indices count from the end.\<close>

definition norm_index :: "nat \<Rightarrow> int \<Rightarrow> error + nat" where
  "norm_index n i =
     (if 0 \<le> i \<and> i < int n then Inr (nat i)
      else if - int n \<le> i \<and> i < 0 then Inr (nat (int n + i))
      else Inl IndexError)"

text \<open>The vectors along the last axis, in order: \<open>t.reshape(-1, t.shape[-1])\<close>.\<close>

definition last_rows :: "tensor \<Rightarrow> real list list" where
  "last_rows t =
     (let n = last (shape t)
      in map (\<lambda>r. take n (drop (r * n) (data t))) [0..<prod_list (butlast (shape t))])"

text \<open>\<open>t[..., k]\<close> for a Python integer \<open>k\<close>: the last axis disappears.\<close>

definition index_int :: "tensor \<Rightarrow> int \<Rightarrow> error + tensor" where
  "index_int t k =
     (if shape t = [] then Inl IndexError
      else case norm_index (last (shape t)) k of
             Inl e \<Rightarrow> Inl e
           | Inr j \<Rightarrow> Inr \<lparr>shape = butlast (shape t), data = map (\<lambda>row. row ! j) (last_rows t)\<rparr>)"

text \<open>\<open>t[..., ks]\<close> for a list (or 1-D index tensor) \<open>ks\<close>: the last axis gets length \<open>len(ks)\<close>.\<close>

definition index_list :: "tensor \<Rightarrow> int list \<Rightarrow> error + tensor" where
  "index_list t ks =
     (if shape t = [] then Inl IndexError
      else case map_err (norm_index (last (shape t))) ks of
             Inl e \<Rightarrow> Inl e
           | Inr js \<Rightarrow>
               Inr \<lparr>shape = butlast (shape t) @ [length js],
                    data = concat (map (\<lambda>row. map (\<lambda>j. row ! j) js) (last_rows t))\<rparr>)"

subsection \<open>Broadcasting\<close>

text \<open>
  Shapes are aligned at their last axis; two axis lengths are compatible when they are equal
  or one of them is 1. \<open>bshape_rev\<close> works on the reversed shapes.
\<close>

fun bshape_rev :: "nat list \<Rightarrow> nat list \<Rightarrow> error + nat list" where
  "bshape_rev [] ys = Inr ys"
| "bshape_rev (x # xs) [] = Inr (x # xs)"
| "bshape_rev (x # xs) (y # ys) =
     (case bshape_rev xs ys of
        Inl e \<Rightarrow> Inl e
      | Inr zs \<Rightarrow>
          if x = y \<or> y = 1 then Inr (x # zs)
          else if x = 1 then Inr (y # zs)
          else Inl RuntimeError)"

definition broadcast_shapes :: "nat list \<Rightarrow> nat list \<Rightarrow> error + nat list" where
  "broadcast_shapes a b =
     (case bshape_rev (rev a) (rev b) of Inl e \<Rightarrow> Inl e | Inr zs \<Rightarrow> Inr (rev zs))"

text \<open>
  \<open>expand_aligned s t xs\<close>: the elements of a tensor of shape \<open>s\<close> expanded to shape \<open>t\<close> of the
  same rank: an axis of equal length is traversed, an axis of length 1 is repeated.
\<close>

fun expand_aligned :: "nat list \<Rightarrow> nat list \<Rightarrow> real list \<Rightarrow> real list" where
  "expand_aligned (s # ss) (t # ts) xs =
     (if s = t
      then concat (map (\<lambda>i. expand_aligned ss ts (take (prod_list ss) (drop (i * prod_list ss) xs)))
                       [0..<s])
      else concat (replicate t (expand_aligned ss ts xs)))"
| "expand_aligned ss ts xs = xs"

definition expand_to :: "nat list \<Rightarrow> tensor \<Rightarrow> real list" where
  "expand_to sh t =
     expand_aligned (replicate (length sh - length (shape t)) 1 @ shape t) sh (data t)"

definition broadcast_op :: "(real \<Rightarrow> real \<Rightarrow> real) \<Rightarrow> tensor \<Rightarrow> tensor \<Rightarrow> error + tensor" where
  "broadcast_op f a b =
     (case broadcast_shapes (shape a) (shape b) of
        Inl e \<Rightarrow> Inl e
      | Inr sh \<Rightarrow> Inr \<lparr>shape = sh, data = map2 f (expand_to sh a) (expand_to sh b)\<rparr>)"

definition unsqueeze_last :: "tensor \<Rightarrow> tensor" where
  "unsqueeze_last t = \<lparr>shape = shape t @ [1], data = data t\<rparr>"

definition pow2 :: "tensor \<Rightarrow> tensor" where
  "pow2 t = \<lparr>shape = shape t, data = map (\<lambda>x. x ^ 2) (data t)\<rparr>"

text \<open>\<open>torch.ones(sh)\<close>.\<close>

definition ones :: "nat list \<Rightarrow> tensor" where
  "ones sh = \<lparr>shape = sh, data = replicate (prod_list sh) 1\<rparr>"

subsection \<open>MSE\<close>

text \<open>
  The \<open>idx_label\<close> argument: \<open>None\<close>, a Python integer, or a list of integers. Python's
  \<open>a or b\<close> yields \<open>b\<close> when \<open>a\<close> is falsy: \<open>None\<close>, the integer 0 and the empty list are.
\<close>

datatype idx_label = IdxNone | IdxInt int | IdxList "int list"

fun truthy :: "idx_label \<Rightarrow> bool" where
  "truthy IdxNone = False"
| "truthy (IdxInt k) = (k \<noteq> 0)"
| "truthy (IdxList ks) = (ks \<noteq> [])"

text \<open>\<open>torch.arange(y_true.shape[-1])\<close>; a 0-dimensional tensor has no last axis.\<close>

definition arange_last :: "tensor \<Rightarrow> error + idx_label" where
  "arange_last t =
     (if shape t = [] then Inl IndexError else Inr (IdxList (map int [0..<last (shape t)])))"

fun getitem_last :: "tensor \<Rightarrow> idx_label \<Rightarrow> error + tensor" where
  "getitem_last t (IdxInt k) = index_int t k"
| "getitem_last t (IdxList ks) = index_list t ks"
| "getitem_last t IdxNone = Inr (unsqueeze_last t)"

definition MSE :: "tensor \<Rightarrow> tensor \<Rightarrow> tensor option \<Rightarrow> idx_label \<Rightarrow> error + torch_float" where
  "MSE y_true y_pred occupation idx_label =
     bind_err (if truthy idx_label then Inr idx_label else arange_last y_true) (\<lambda>idx.
     bind_err (getitem_last y_true idx) (\<lambda>a.
     bind_err (getitem_last y_pred idx) (\<lambda>b.
     bind_err (broadcast_op (\<lambda>x y. x - y) a b) (\<lambda>d.
     bind_err (case occupation of
                 None \<Rightarrow> Inr (pow2 d)
               | Some occ \<Rightarrow> broadcast_op (\<lambda>x y. x * y) (pow2 d) (unsqueeze_last occ)) (\<lambda>diff.
     Inr (torch_div (sum_list (data diff)) (real (prod_list (shape y_true)))))))))"

section \<open>Strings and numbers of the download pipeline (src/dataset/process_data.py)\<close>

text \<open>\<open>str(n)\<close> and \<open>"%s" % n\<close> for a Python integer: its decimal digits.\<close>

fun digits :: "nat \<Rightarrow> string" where
  "digits n =
     (if n < 10 then [''0123456789'' ! n]
      else digits (n div 10) @ [''0123456789'' ! (n mod 10)])"

definition py_str :: "int \<Rightarrow> string" where
  "py_str i = (if i < 0 then CHR ''-'' # digits (nat (- i)) else digits (nat i))"

text \<open>
  \<open>int(s)\<close> on an ASCII string: surrounding whitespace (tab, line feed, vertical tab, form
  feed, carriage return, space) is stripped, an optional sign follows, then decimal digits,
  where single underscores may stand between digits. Anything else raises \<open>ValueError\<close>.
\<close>

definition py_isspace :: "char \<Rightarrow> bool" where
  "py_isspace c =
     (c \<in> set [CHR 0x09, CHR 0x0A, CHR 0x0B, CHR 0x0C, CHR 0x0D, CHR 0x20])"

definition strip :: "string \<Rightarrow> string" where
  "strip s = rev (dropWhile py_isspace (rev (dropWhile py_isspace s)))"

definition is_digit :: "char \<Rightarrow> bool" where
  "is_digit c = (c \<in> set ''0123456789'')"

definition digit_val :: "char \<Rightarrow> nat" where
  "digit_val c = of_char c - 48"

fun parse_digits :: "nat \<Rightarrow> string \<Rightarrow> nat option" where
  "parse_digits acc [] = Some acc"
| "parse_digits acc (c # cs) =
     (if is_digit c then parse_digits (acc * 10 + digit_val c) cs
      else if c = CHR ''_'' \<and> cs \<noteq> [] \<and> is_digit (hd cs) then parse_digits acc cs
      else None)"

definition py_int :: "string \<Rightarrow> error + int" where
  "py_int s =
     (let t = strip s;
          neg = (t \<noteq> [] \<and> hd t = CHR ''-'');
          body = (if t \<noteq> [] \<and> (hd t = CHR ''-'' \<or> hd t = CHR ''+'') then tl t else t)
      in if body = [] \<or> \<not> is_digit (hd body) then Inl ValueError
         else case parse_digits 0 body of
                None \<Rightarrow> Inl ValueError
              | Some n \<Rightarrow> Inr (if neg then - int n else int n))"

text \<open>
  \<open>re.findall("filename=(.+)", s)[0]\<close>: the first position where \<open>filename=\<close> is followed by
  at least one character other than a newline; the group is the rest of that line.
  \<open>None\<close> stands for the empty result list, whose element 0 raises \<open>IndexError\<close>.
\<close>

fun find_filename :: "string \<Rightarrow> string option" where
  "find_filename [] = None"
| "find_filename (c # cs) =
     (let g = takeWhile (\<lambda>x. x \<noteq> CHR 0x0A) (drop 9 (c # cs))
      in if take 9 (c # cs) = ''filename='' \<and> g \<noteq> [] then Some g else find_filename cs)"

section \<open>The world: file system, environment, network\<close>

text \<open>
  A path is the list of its components; \<open>joinpath\<close> appends one component. The file
  system is the set of directories and a map from the paths of regular files to their
  bytes. The process environment and the parsed content of \<open>.env.test.local\<close> are maps
  from variable names to values. Every request sent through the session is appended to
  \<open>requests\<close>, so that what was sent before an exception stays observable.
\<close>

type_synonym path = "string list"

definition joinpath :: "path \<Rightarrow> string \<Rightarrow> path" where
  "joinpath p name = p @ [name]"

datatype request =
    Get string "(string \<times> string) list" bool
  | Post string "(string \<times> string) list" "(string \<times> string) list"

text \<open>
  \<open>Get url headers stream\<close> and \<open>Post url data headers\<close>. Of a response the code reads
  \<open>ok\<close>, two headers, the values the XPath query for the anti-forgery token finds in its
  markup, and the chunks \<open>iter_content\<close> yields.
\<close>

record response =
  ok :: bool
  content_disposition :: "string option"
  content_length :: "string option"
  csrf_tokens :: "string list"
  chunks :: "string list"

record world =
  dirs :: "path set"
  files :: "path \<rightharpoonup> string"
  environ :: "string \<rightharpoonup> string"
  dotenv :: "string \<rightharpoonup> string"
  requests :: "request list"

text \<open>The remote side answers a request knowing the requests it has seen before.\<close>

type_synonym server = "request list \<Rightarrow> request \<Rightarrow> response"

definition session_send :: "server \<Rightarrow> request \<Rightarrow> world \<Rightarrow> response \<times> world" where
  "session_send srv rq w = (srv (requests w) rq, w\<lparr>requests := requests w @ [rq]\<rparr>)"

text \<open>
  \<open>os.makedirs(p)\<close>: creates \<open>p\<close> and its missing ancestors; an existing leaf is an error,
  and so is an ancestor that is a regular file.
\<close>

definition makedirs :: "path \<Rightarrow> world \<Rightarrow> error + world" where
  "makedirs p w =
     (if p \<in> dirs w \<or> p \<in> dom (files w) then Inl FileExistsError
      else if \<exists>n \<in> set [0..<length p]. take n p \<in> dom (files w) then Inl NotADirectoryError
      else Inr (w\<lparr>dirs := dirs w \<union> set (map (\<lambda>n. take n p) [0..<Suc (length p)])\<rparr>))"

text \<open>\<open>open(p, "ab")\<close>: the bytes the file holds when it is opened; a missing file is created.\<close>

definition open_append :: "path \<Rightarrow> world \<Rightarrow> error + string" where
  "open_append p w =
     (case files w p of
        Some content \<Rightarrow> Inr content
      | None \<Rightarrow>
          if p \<in> dirs w then Inl IsADirectoryError
          else if butlast p \<notin> dirs w then Inl FileNotFoundError
          else Inr [])"

definition read_file :: "world \<Rightarrow> path \<Rightarrow> error + string" where
  "read_file w p =
     (case files w p of
        Some content \<Rightarrow> Inr content
      | None \<Rightarrow> if p \<in> dirs w then Inl IsADirectoryError else Inl FileNotFoundError)"

text \<open>\<open>load_dotenv(f)\<close> adds the variables of the file that the environment does not define.\<close>

definition load_dotenv :: "world \<Rightarrow> world" where
  "load_dotenv w = w\<lparr>environ := dotenv w ++ environ w\<rparr>"

section \<open>download\_from\_url\<close>

text \<open>
  The loop over \<open>response.iter_content\<close>: every non-empty chunk is appended. The progress
  bar only prints and is left out.
\<close>

fun write_chunks :: "string list \<Rightarrow> string \<Rightarrow> string" where
  "write_chunks [] content = content"
| "write_chunks (chunk # rest) content =
     (if chunk \<noteq> [] then write_chunks rest (content @ chunk) else write_chunks rest content)"

definition range_header :: "int \<Rightarrow> int \<Rightarrow> (string \<times> string) list" where
  "range_header first_byte total_size =
     [(''Range'', ''bytes='' @ py_str first_byte @ ''-'' @ py_str total_size)]"

definition download_from_url :: "server \<Rightarrow> string \<Rightarrow> path \<Rightarrow> world \<Rightarrow> (error + int) \<times> world" where
  "download_from_url srv url destination_folder w0 =
     (let (response, w1) = session_send srv (Get url [(''referer'', url)] True) w0
      in if \<not> ok response then (Inl AssertionError, w1)
         else case content_disposition response of
           None \<Rightarrow> (Inl KeyError, w1)
         | Some cd \<Rightarrow>
         (case find_filename cd of
           None \<Rightarrow> (Inl IndexError, w1)
         | Some name \<Rightarrow>
         (case content_length response of
           None \<Rightarrow> (Inl KeyError, w1)
         | Some cl \<Rightarrow>
         (case py_int cl of
           Inl e \<Rightarrow> (Inl e, w1)
         | Inr total_size \<Rightarrow>
             let dst = joinpath destination_folder name;
                 first_byte = (case files w1 dst of
                                 Some content \<Rightarrow> int (length content)
                               | None \<Rightarrow> 0)
             in if first_byte \<ge> total_size then (Inr total_size, w1)
                else
                  let (response2, w2) =
                        session_send srv (Get url (range_header first_byte total_size) True) w1
                  in if \<not> ok response2 then (Inl AssertionError, w2)
                     else case open_append dst w2 of
                            Inl e \<Rightarrow> (Inl e, w2)
                          | Inr content \<Rightarrow>
                              (Inr total_size,
                               w2\<lparr>files := (files w2)(dst \<mapsto> write_chunks (chunks response2) content)\<rparr>)))))"

section \<open>npz\_check\<close>

record remote_file =
  url :: string
  filename :: string

definition x_train :: remote_file where
  "x_train = \<lparr>url = ''https://challengedata.ens.fr/participants/challenges/28/download/x-train'',
              filename = ''x_train_LsAZgHU.csv''\<rparr>"

definition y_train :: remote_file where
  "y_train = \<lparr>url = ''https://challengedata.ens.fr/participants/challenges/28/download/y-train'',
              filename = ''y_train_EFo1WyE.csv''\<rparr>"

definition x_test :: remote_file where
  "x_test = \<lparr>url = ''https://challengedata.ens.fr/participants/challenges/28/download/x-test'',
             filename = ''x_test_QK7dVsy.csv''\<rparr>"

definition login_url :: string where
  "login_url = ''https://challengedata.ens.fr/login/''"

definition is_file :: "world \<Rightarrow> path \<Rightarrow> bool" where
  "is_file w p = (p \<in> dom (files w))"

definition is_dir :: "world \<Rightarrow> path \<Rightarrow> bool" where
  "is_dir w p = (p \<in> dirs w)"

text \<open>
  Lines 127 to 149: which remote files to download (\<open>files_to_download\<close>) and whether the
  archive has to be built (\<open>make_npz_flag\<close>).
\<close>

definition npz_check_presence ::
  "path \<Rightarrow> path \<Rightarrow> world \<Rightarrow> (error + remote_file list \<times> bool) \<times> world" where
  "npz_check_presence datasets_path dataset_path w =
     (if \<not> is_dir w datasets_path then
        (case makedirs datasets_path w of
           Inl e \<Rightarrow> (Inl e, w)
         | Inr w' \<Rightarrow> (Inr ([x_train, y_train, x_test], True), w'))
      else
        let files_to_download =
              (if \<not> is_file w (joinpath datasets_path (filename x_test)) then [x_test] else [])
        in if \<not> is_file w dataset_path then
             (Inr (files_to_download
                   @ (if \<not> is_file w (joinpath datasets_path (filename x_train)) then [x_train] else [])
                   @ (if \<not> is_file w (joinpath datasets_path (filename y_train)) then [y_train] else []),
                   True), w)
           else (Inr (files_to_download, False), w))"

text \<open>
  Lines 151 to 180: the login. \<open>list(set(tokens))[0]\<close> raises \<open>IndexError\<close> when the query
  found nothing; with several distinct tokens Python's choice depends on its hashing, the
  model takes the first.
\<close>

definition login :: "server \<Rightarrow> world \<Rightarrow> (error + unit) \<times> world" where
  "login srv w0 =
     (let (response, w1) = session_send srv (Get login_url [] False) w0
      in if \<not> ok response then (Inl AssertionError, w1)
         else case remdups (csrf_tokens response) of
           [] \<Rightarrow> (Inl IndexError, w1)
         | authenticity_token # _ \<Rightarrow>
             let w2 = load_dotenv w1;
                 challenge_user_name = environ w2 ''CHALLENGE_USER_NAME'';
                 challenge_user_password = environ w2 ''CHALLENGE_USER_PASSWORD''
             in case (challenge_user_name, challenge_user_password) of
                  (Some name, Some password) \<Rightarrow>
                    let (response2, w3) =
                          session_send srv
                            (Post login_url
                               [(''username'', name), (''password'', password),
                                (''csrfmiddlewaretoken'', authenticity_token)]
                               [(''referer'', login_url)]) w2
                    in if \<not> ok response2 then (Inl AssertionError, w3) else (Inr (), w3)
                | _ \<Rightarrow> (Inl ValueError, w2))"

text \<open>
  Lines 182 to 192: one thread per file, all started, all joined. An exception inside a
  thread ends that thread only; what it wrote before stays. The threads are run one after
  the other in the order of the list: their interleavings are not modelled.
\<close>

fun run_threads :: "server \<Rightarrow> path \<Rightarrow> remote_file list \<Rightarrow> world \<Rightarrow> world" where
  "run_threads srv datasets_path [] w = w"
| "run_threads srv datasets_path (file # rest) w =
     run_threads srv datasets_path rest (snd (download_from_url srv (url file) datasets_path w))"

section \<open>csv2npz\<close>

definition TIME_SERIES_LENGTH :: nat where
  "TIME_SERIES_LENGTH = 672"

text \<open>
  A data frame as \<open>pd.read_csv\<close> returns it: the number of rows and, for every column name,
  the column. A numpy array is its shape and its elements in row-major order.
\<close>

record 'a frame =
  nrows :: nat
  column :: "string \<rightharpoonup> 'a list"

definition wf_frame :: "'a frame \<Rightarrow> bool" where
  "wf_frame df = (\<forall>c \<in> ran (column df). length c = nrows df)"

record 'a ndarray =
  nd_shape :: "nat list"
  nd_data :: "'a list"

text \<open>\<open>df[names].values\<close>: a missing column raises \<open>KeyError\<close>.\<close>

definition select_columns :: "'a frame \<Rightarrow> string list \<Rightarrow> error + 'a ndarray" where
  "select_columns df names =
     (case map_err (\<lambda>n. case column df n of None \<Rightarrow> Inl KeyError | Some c \<Rightarrow> Inr c) names of
        Inl e \<Rightarrow> Inl e
      | Inr cols \<Rightarrow>
          Inr \<lparr>nd_shape = [nrows df, length names],
               nd_data = concat (map (\<lambda>r. map (\<lambda>c. c ! r) cols) [0..<nrows df])\<rparr>)"

text \<open>
  \<open>a.reshape((m, -1, K))\<close>: numpy infers the middle axis from the element count and
  raises \<open>ValueError\<close> when the known axes multiply to zero or do not divide the count.
\<close>

definition reshape_m_K :: "nat \<Rightarrow> nat \<Rightarrow> 'a ndarray \<Rightarrow> error + 'a ndarray" where
  "reshape_m_K m K a =
     (let n = prod_list (nd_shape a)
      in if m * K = 0 \<or> n mod (m * K) \<noteq> 0 then Inl ValueError
         else Inr \<lparr>nd_shape = [m, n div (m * K), K], nd_data = nd_data a\<rparr>)"

definition astype :: "('a \<Rightarrow> 'b) \<Rightarrow> 'a ndarray \<Rightarrow> 'b ndarray" where
  "astype f a = \<lparr>nd_shape = nd_shape a, nd_data = map f (nd_data a)\<rparr>"

text \<open>\<open>a[i, j, ...]\<close> with non-negative indices, one per axis.\<close>

fun ravel :: "nat list \<Rightarrow> nat list \<Rightarrow> nat option" where
  "ravel [] [] = Some 0"
| "ravel (d # ds) (i # js) =
     (if i < d then map_option (\<lambda>r. i * prod_list ds + r) (ravel ds js) else None)"
| "ravel ds js = None"

definition getitem :: "'a ndarray \<Rightarrow> nat list \<Rightarrow> error + 'a" where
  "getitem a idx =
     (case ravel (nd_shape a) idx of None \<Rightarrow> Inl IndexError | Some j \<Rightarrow> Inr (nd_data a ! j))"

text \<open>\<open>[f"{var_name}_{i}" for var_name in names for i in range(K)]\<close>\<close>

definition ts_columns :: "nat \<Rightarrow> string list \<Rightarrow> string list" where
  "ts_columns K names =
     concat (map (\<lambda>var_name. map (\<lambda>i. var_name @ ''_'' @ py_str (int i)) [0..<K]) names)"

record 'b archive =
  arch_R :: "'b ndarray"
  arch_X :: "'b ndarray"
  arch_Z :: "'b ndarray"

definition lookup :: "('k \<rightharpoonup> 'v) \<Rightarrow> 'k \<Rightarrow> error + 'v" where
  "lookup d k = (case d k of None \<Rightarrow> Inl KeyError | Some v \<Rightarrow> Inr v)"

text \<open>
  Lines 233 to 247: the three arrays, from the feature table \<open>x\<close>, the target table \<open>y\<close> and
  the labels. \<open>float32\<close> is the cast \<open>astype(np.float32)\<close> applies to an element.
\<close>

definition csv2npz_arrays ::
  "('a \<Rightarrow> 'b) \<Rightarrow> 'a frame \<Rightarrow> 'a frame \<Rightarrow> (string \<rightharpoonup> string list) \<Rightarrow> error + 'b archive" where
  "csv2npz_arrays float32 x y labels =
     (let m = nrows x; K = TIME_SERIES_LENGTH
      in bind_err (lookup labels ''R'') (\<lambda>r_names.
         bind_err (select_columns x r_names) (\<lambda>R0.
         bind_err (lookup labels ''X'') (\<lambda>x_names.
         bind_err (select_columns y (ts_columns K x_names)) (\<lambda>X0.
         bind_err (reshape_m_K m K X0) (\<lambda>X1.
         bind_err (lookup labels ''Z'') (\<lambda>z_names.
         bind_err (select_columns x (ts_columns K z_names)) (\<lambda>Z0.
         bind_err (reshape_m_K m K Z0) (\<lambda>Z1.
         Inr \<lparr>arch_R = astype float32 R0, arch_X = astype float32 X1,
              arch_Z = astype float32 Z1\<rparr>)))))))))"

text \<open>
  What the function takes from outside the repository: the CSV and JSON parsers, the
  element cast and the serialisation of the archive.
\<close>

record ('a, 'b) externals =
  read_csv :: "string \<Rightarrow> error + 'a frame"
  json_load :: "string \<Rightarrow> error + (string \<rightharpoonup> string list)"
  float32 :: "'a \<Rightarrow> 'b"
  savez :: "'b archive \<Rightarrow> string"

text \<open>\<open>np.savez(file, ...)\<close> appends \<open>.npz\<close> to a name that does not end with it.\<close>

definition npz_name :: "string \<Rightarrow> string" where
  "npz_name name = (if drop (length name - 4) name = ''.npz'' then name else name @ ''.npz'')"

definition write_file :: "path \<Rightarrow> string \<Rightarrow> world \<Rightarrow> (error + unit) \<times> world" where
  "write_file p content w =
     (if p \<in> dirs w then (Inl IsADirectoryError, w)
      else if butlast p \<notin> dirs w then (Inl FileNotFoundError, w)
      else (Inr (), w\<lparr>files := (files w)(p \<mapsto> content)\<rparr>))"

definition csv2npz ::
  "('a, 'b) externals \<Rightarrow> path \<Rightarrow> path \<Rightarrow> path \<Rightarrow> string \<Rightarrow> path \<Rightarrow> world \<Rightarrow> (error + unit) \<times> world" where
  "csv2npz ext dataset_x_path dataset_y_path output_path name labels_path w =
     (case bind_err (bind_err (read_file w dataset_x_path) (read_csv ext)) (\<lambda>x.
           bind_err (bind_err (read_file w dataset_y_path) (read_csv ext)) (\<lambda>y.
           bind_err (bind_err (read_file w labels_path) (json_load ext)) (\<lambda>labels.
           csv2npz_arrays (float32 ext) x y labels))) of
        Inl e \<Rightarrow> (Inl e, w)
      | Inr a \<Rightarrow> write_file (joinpath output_path (npz_name name)) (savez ext a) w)"

definition make_npz ::
  "('a, 'b) externals \<Rightarrow> path \<Rightarrow> string \<Rightarrow> string \<Rightarrow> string \<Rightarrow> world \<Rightarrow> (error + unit) \<times> world" where
  "make_npz ext datasets_path output_filename x_train_filename y_train_filename w =
     csv2npz ext (joinpath datasets_path x_train_filename) (joinpath datasets_path y_train_filename)
       datasets_path output_filename [''labels.json''] w"

definition npz_check ::
  "('a, 'b) externals \<Rightarrow> server \<Rightarrow> path \<Rightarrow> string \<Rightarrow> world \<Rightarrow> (error + path) \<times> world" where
  "npz_check ext srv datasets_path output_filename w0 =
     (let dataset_path = joinpath datasets_path (output_filename @ ''.npz'')
      in case npz_check_presence datasets_path dataset_path w0 of
           (Inl e, w1) \<Rightarrow> (Inl e, w1)
         | (Inr (files_to_download, make_npz_flag), w1) \<Rightarrow>
         (case (if files_to_download \<noteq> []
                then (case login srv w1 of
                        (Inl e, w2) \<Rightarrow> (Inl e, w2)
                      | (Inr u, w2) \<Rightarrow> (Inr (), run_threads srv datasets_path files_to_download w2))
                else (Inr (), w1)) of
           (Inl e, w2) \<Rightarrow> (Inl e, w2)
         | (Inr u, w2) \<Rightarrow>
         (case (if make_npz_flag
                then make_npz ext datasets_path output_filename (filename x_train) (filename y_train) w2
                else (Inr (), w2)) of
           (Inl e, w3) \<Rightarrow> (Inl e, w3)
         | (Inr u, w3) \<Rightarrow> (Inr dataset_path, w3))))"

section \<open>Example inputs\<close>

text \<open>
  A server that answers every request alike, a 5-byte file named \<open>f.csv\<close> whatever range is
  asked for, and worlds with a destination folder holding a given part of that file.
\<close>

definition demo_server :: server where
  "demo_server history rq =
     \<lparr>ok = True, content_disposition = Some ''attachment; filename=f.csv'',
      content_length = Some ''5'', csrf_tokens = [''token''], chunks = [''abc'', [], ''de'']\<rparr>"

definition demo_world :: "string \<Rightarrow> world" where
  "demo_world content =
     \<lparr>dirs = {[''d'']}, files = [[''d'', ''f.csv''] \<mapsto> content], environ = Map.empty,
      dotenv = Map.empty, requests = []\<rparr>"

text \<open>Externals that parse nothing, and three states of the dataset directory.\<close>

definition demo_ext :: "(real, real) externals" where
  "demo_ext = \<lparr>read_csv = (\<lambda>s. Inl ValueError), json_load = (\<lambda>s. Inl ValueError),
               float32 = (\<lambda>v. v), savez = (\<lambda>a. [])\<rparr>"

definition empty_dir_world :: world where
  "empty_dir_world =
     \<lparr>dirs = {[''dataset'']}, files = Map.empty, environ = Map.empty, dotenv = Map.empty,
      requests = []\<rparr>"

definition no_dir_world :: world where
  "no_dir_world =
     \<lparr>dirs = {}, files = Map.empty, environ = Map.empty, dotenv = Map.empty, requests = []\<rparr>"

definition built_world :: world where
  "built_world =
     \<lparr>dirs = {[''dataset'']},
      files = [[''dataset'', ''x_test_QK7dVsy.csv''] \<mapsto> ''a,b'', [''dataset'', ''dataset.npz''] \<mapsto> ''npz''],
      environ = Map.empty, dotenv = Map.empty, requests = []\<rparr>"

text \<open>
  A table of \<open>m\<close> rows with a flat column \<open>r\<close> and the 672 columns of one variable \<open>v\<close>, holding
  \<open>1000 * s + t\<close> at row \<open>s\<close> of column \<open>v_t\<close>.
\<close>

definition demo_labels :: "string \<rightharpoonup> string list" where
  "demo_labels = [''R'' \<mapsto> [''r''], ''X'' \<mapsto> [''a''], ''Z'' \<mapsto> [''z'']]"

definition demo_frame :: "nat \<Rightarrow> string \<Rightarrow> real frame" where
  "demo_frame m v =
     \<lparr>nrows = m,
      column = map_of (map (\<lambda>t. (v @ ''_'' @ py_str (int t), map (\<lambda>s. real (1000 * s + t)) [0..<m]))
                           [0..<TIME_SERIES_LENGTH]
                      @ [(''r'', map real [0..<m])])\<rparr>"

section \<open>Verification of MSE\<close>

subsection \<open>Lists cut into rows\<close>

lemma map_err_all_ok:
  "(\<And>x. x \<in> set xs \<Longrightarrow> f x = Inr (g x)) \<Longrightarrow> map_err f xs = Inr (map g xs)"
  by (induction xs) auto

lemma concat_chunks_take:
  "concat (map (\<lambda>r. take n (drop (r * n) xs)) [0..<R]) = take (R * n) xs"
proof (induction R)
  case 0
  then show ?case by simp
next
  case (Suc R)
  have "take (R * n) xs @ take n (drop (R * n) xs) = take (R * n + n) xs"
    by (simp add: take_add)
  with Suc show ?case by (simp add: add.commute)
qed

lemma bshape_rev_same: "bshape_rev xs xs = Inr xs"
  by (induction xs) auto

lemma broadcast_shapes_same: "broadcast_shapes s s = Inr s"
  by (simp add: broadcast_shapes_def bshape_rev_same)

lemma expand_aligned_same:
  "length xs = prod_list ts \<Longrightarrow> expand_aligned ts ts xs = xs"
proof (induction ts arbitrary: xs)
  case Nil
  then show ?case by simp
next
  case (Cons t ts)
  have "\<And>i. i < t \<Longrightarrow> expand_aligned ts ts (take (prod_list ts) (drop (i * prod_list ts) xs))
        = take (prod_list ts) (drop (i * prod_list ts) xs)"
  proof -
    fix i assume "i < t"
    then have "Suc i * prod_list ts \<le> t * prod_list ts"
      using mult_le_mono1 Suc_leI by blast 
    then have "length (take (prod_list ts) (drop (i * prod_list ts) xs)) = prod_list ts"
      using Cons.prems by simp
    then show "expand_aligned ts ts (take (prod_list ts) (drop (i * prod_list ts) xs))
        = take (prod_list ts) (drop (i * prod_list ts) xs)"
      by (rule Cons.IH)
  qed
  then have eq: "map (\<lambda>i. expand_aligned ts ts (take (prod_list ts) (drop (i * prod_list ts) xs))) [0..<t]
           = map (\<lambda>i. take (prod_list ts) (drop (i * prod_list ts) xs)) [0..<t]"
    by simp
  show ?case by (simp add: eq concat_chunks_take Cons.prems)
qed

lemma expand_to_same: "wf_tensor t \<Longrightarrow> expand_to (shape t) t = data t"
  by (simp add: expand_to_def wf_tensor_def expand_aligned_same)

lemma broadcast_op_same_shape:
  "wf_tensor a \<Longrightarrow> wf_tensor b \<Longrightarrow> shape b = shape a \<Longrightarrow>
   broadcast_op f a b = Inr \<lparr>shape = shape a, data = map2 f (data a) (data b)\<rparr>"
  using expand_to_same[of a] expand_to_same[of b]
  by (simp add: broadcast_op_def broadcast_shapes_same)

lemma norm_index_arange: "x \<in> set (map int [0..<n]) \<Longrightarrow> norm_index n x = Inr (nat x)"
  by (auto simp: norm_index_def)

lemma map_err_arange: "map_err (norm_index n) (map int [0..<n]) = Inr [0..<n]"
proof -
  have "map_err (norm_index n) (map int [0..<n]) = Inr (map nat (map int [0..<n]))"
    by (rule map_err_all_ok) (rule norm_index_arange)
  also have "map nat (map int [0..<n]) = [0..<n]"
    by (simp add: map_idI)
  finally show ?thesis .
qed

lemma prod_list_butlast_last: "sh \<noteq> [] \<Longrightarrow> prod_list (butlast sh) * last sh = prod_list sh"
proof -
  assume "sh \<noteq> []"
  then have "prod_list (butlast sh @ [last sh]) = prod_list sh" by simp
  then show ?thesis by (simp del: append_butlast_last_id)
qed

lemma length_last_row:
  assumes "wf_tensor t" "shape t \<noteq> []" "r < prod_list (butlast (shape t))"
  shows "length (take (last (shape t)) (drop (r * last (shape t)) (data t))) = last (shape t)"
proof -
  have "Suc r * last (shape t) \<le> prod_list (butlast (shape t)) * last (shape t)"
    using assms(3) by (intro mult_le_mono1) simp
  then have "r * last (shape t) + last (shape t) \<le> length (data t)"
    using assms(1,2) by (simp add: wf_tensor_def prod_list_butlast_last)
  then show ?thesis by simp
qed

lemma last_rows_length:
  "wf_tensor t \<Longrightarrow> shape t \<noteq> [] \<Longrightarrow> row \<in> set (last_rows t) \<Longrightarrow> length row = last (shape t)"
  unfolding last_rows_def Let_def using length_last_row by auto

lemma length_last_rows: "length (last_rows t) = prod_list (butlast (shape t))"
  by (simp add: last_rows_def Let_def)

lemma concat_last_rows:
  "wf_tensor t \<Longrightarrow> shape t \<noteq> [] \<Longrightarrow> concat (last_rows t) = data t"
  by (simp add: last_rows_def Let_def concat_chunks_take wf_tensor_def prod_list_butlast_last)

lemma index_list_arange:
  assumes "wf_tensor t" "shape t \<noteq> []"
  shows "index_list t (map int [0..<last (shape t)]) = Inr t"
proof -
  have "map (\<lambda>row. map (\<lambda>j. row ! j) [0..<last (shape t)]) (last_rows t) = last_rows t"
  proof -
    have "\<And>row. row \<in> set (last_rows t) \<Longrightarrow> map (\<lambda>j. row ! j) [0..<last (shape t)] = row"
      using last_rows_length[OF assms] by (metis map_nth)
    then show ?thesis by (simp add: map_idI)
  qed
  then show ?thesis
    using assms by (simp add: index_list_def map_err_arange concat_last_rows)
qed

lemma index_list_wf:
  assumes "index_list t ks = Inr u"
  shows "wf_tensor u \<and> shape u = butlast (shape t) @ [length ks]"
proof -
  from assms obtain js where js: "map_err (norm_index (last (shape t))) ks = Inr js"
    and u: "u = \<lparr>shape = butlast (shape t) @ [length js],
                data = concat (map (\<lambda>row. map (\<lambda>j. row ! j) js) (last_rows t))\<rparr>"
    by (auto simp: index_list_def split: if_splits sum.splits)
  have len: "length js = length ks"
    using js by (induction ks arbitrary: js) (auto split: sum.splits)
  have "length (concat (map (\<lambda>row. map (\<lambda>j. row ! j) js) (last_rows t)))
        = prod_list (butlast (shape t)) * length js"
    by (simp add: length_concat comp_def sum_list_triv length_last_rows)
  then show ?thesis using u len by (simp add: wf_tensor_def)
qed

lemma index_int_wf:
  assumes "index_int t k = Inr u"
  shows "wf_tensor u \<and> shape u = butlast (shape t)"
  using assms by (auto simp: index_int_def wf_tensor_def length_last_rows split: if_splits sum.splits)

subsection \<open>Broadcasting a weight per row\<close>

lemma concat_replicate_single: "concat (replicate k [x]) = replicate k x"
  by (induction k) auto

lemma concat_map_concat_chunks:
  "concat (map (\<lambda>i. concat (map f (g i))) is) = concat (map f (concat (map g is)))"
  by (induction "is") auto

lemma expand_aligned_last1:
  "length xs = prod_list lead \<Longrightarrow>
   expand_aligned (lead @ [Suc 0]) (lead @ [k]) xs = concat (map (replicate k) xs)"
proof (induction lead arbitrary: xs)
  case Nil
  then obtain x where "xs = [x]"
    by (cases xs) auto
  then show ?case by (auto simp: concat_replicate_single)
next
  case (Cons d lead)
  let ?P = "prod_list lead"
  have step: "\<And>i. i < d \<Longrightarrow>
      expand_aligned (lead @ [Suc 0]) (lead @ [k]) (take ?P (drop (i * ?P) xs))
      = concat (map (replicate k) (take ?P (drop (i * ?P) xs)))"
  proof -
    fix i assume "i < d"
    then have "Suc i * ?P \<le> d * ?P"
      using mult_le_mono1 Suc_leI by blast
    then have "length (take ?P (drop (i * ?P) xs)) = ?P"
      using Cons.prems by simp
    then show "expand_aligned (lead @ [Suc 0]) (lead @ [k]) (take ?P (drop (i * ?P) xs))
      = concat (map (replicate k) (take ?P (drop (i * ?P) xs)))"
      by (rule Cons.IH)
  qed
  then have eq: "map (\<lambda>i. expand_aligned (lead @ [Suc 0]) (lead @ [k]) (take ?P (drop (i * ?P) xs))) [0..<d]
      = map (\<lambda>i. concat (map (replicate k) (take ?P (drop (i * ?P) xs)))) [0..<d]"
    by simp
  have "concat (map (\<lambda>i. take ?P (drop (i * ?P) xs)) [0..<d]) = xs"
    using Cons.prems by (simp add: concat_chunks_take)
  then have fin: "concat (map (\<lambda>i. concat (map (replicate k) (take ?P (drop (i * ?P) xs)))) [0..<d])
      = concat (map (replicate k) xs)"
    by (simp add: concat_map_concat_chunks)
  have "expand_aligned ((d # lead) @ [Suc 0]) ((d # lead) @ [k]) xs
      = concat (map (\<lambda>i. expand_aligned (lead @ [Suc 0]) (lead @ [k]) (take ?P (drop (i * ?P) xs))) [0..<d])"
    by simp
  also have "\<dots> = concat (map (\<lambda>i. concat (map (replicate k) (take ?P (drop (i * ?P) xs)))) [0..<d])"
    by (simp only: eq)
  also note fin
  finally show ?case .
qed

lemma bshape_rev_last1: "bshape_rev (k # xs) (Suc 0 # xs) = Inr (k # xs)"
  by (simp add: bshape_rev_same)

lemma broadcast_shapes_last1: "broadcast_shapes (lead @ [k]) (lead @ [Suc 0]) = Inr (lead @ [k])"
  by (simp add: broadcast_shapes_def bshape_rev_same)

lemma nth_concat_replicate:
  "j < length ws * k \<Longrightarrow> concat (map (replicate k) ws) ! j = ws ! (j div k)"
proof (induction ws arbitrary: j)
  case Nil
  then show ?case by simp
next
  case (Cons w ws)
  show ?case
  proof (cases "j < k")
    case True
    then show ?thesis by (simp add: nth_append)
  next
    case False
    then have "j - k < length ws * k" using Cons.prems by simp
    then have "concat (map (replicate k) ws) ! (j - k) = ws ! ((j - k) div k)"
      by (rule Cons.IH)
    moreover have "0 < k"
      using Cons.prems by (cases k) auto
    then have "j div k = Suc ((j - k) div k)"
      using False by (simp add: le_div_geq)
    ultimately show ?thesis using False by (simp add: nth_append)
  qed
qed

lemma length_concat_replicate: "length (concat (map (replicate k) ws)) = length ws * k"
  by (induction ws) auto

lemma sum_rows:
  fixes g :: "nat \<Rightarrow> real"
  shows "(\<Sum>j<R * n. g j) = (\<Sum>r<R. \<Sum>c<n. g (r * n + c))"
proof -
  have "(\<Sum>r<R. sum g {r * n..<r * n + n}) = sum g {..<R * n}"
    by (rule sum.nat_group)
  moreover have "\<And>r. sum g {r * n..<r * n + n} = (\<Sum>c<n. g (r * n + c))"
  proof -
    fix r
    have "sum g {0 + r * n..<n + r * n} = sum (\<lambda>c. g (c + r * n)) {0..<n}"
      by (rule sum.shift_bounds_nat_ivl)
    then show "sum g {r * n..<r * n + n} = (\<Sum>c<n. g (r * n + c))"
      by (simp add: add.commute lessThan_atLeast0)
  qed
  ultimately show ?thesis by simp
qed

lemma sum_list_weighted_rows:
  fixes sq w :: "real list"
  assumes "length sq = length w * n"
  shows "sum_list (map2 (\<lambda>x y. x * y) sq (concat (map (replicate n) w)))
         = (\<Sum>r<length w. \<Sum>c<n. sq ! (r * n + c) * w ! r)"
proof -
  let ?ws = "concat (map (replicate n) w)"
  have len: "length (map2 (\<lambda>x y. x * y) sq ?ws) = length w * n"
    using assms by (simp add: length_concat_replicate)
  have "sum_list (map2 (\<lambda>x y. x * y) sq ?ws) = (\<Sum>j<length w * n. map2 (\<lambda>x y. x * y) sq ?ws ! j)"
    using len by (simp add: sum_list_sum_nth lessThan_atLeast0)
  also have "\<dots> = (\<Sum>j<length w * n. sq ! j * w ! (j div n))"
    using assms by (intro sum.cong) (simp_all add: length_concat_replicate nth_concat_replicate)
  also have "\<dots> = (\<Sum>r<length w. \<Sum>c<n. sq ! (r * n + c) * w ! ((r * n + c) div n))"
    by (rule sum_rows)
  also have "\<dots> = (\<Sum>r<length w. \<Sum>c<n. sq ! (r * n + c) * w ! r)"
    by (intro sum.cong) simp_all
  finally show ?thesis .
qed

subsection \<open>What MSE computes\<close>

lemma broadcast_op_unsqueeze:
  assumes "wf_tensor sq" "shape sq = lead @ [k]" "wf_tensor occ" "shape occ = lead"
  shows "broadcast_op f sq (unsqueeze_last occ)
         = Inr \<lparr>shape = lead @ [k], data = map2 f (data sq) (concat (map (replicate k) (data occ)))\<rparr>"
proof -
  have "expand_to (lead @ [k]) sq = data sq"
    using expand_to_same[OF assms(1)] assms(2) by simp
  moreover have "expand_to (lead @ [k]) (unsqueeze_last occ) = concat (map (replicate k) (data occ))"
    using assms(3,4) by (simp add: expand_to_def unsqueeze_last_def wf_tensor_def expand_aligned_last1)
  ultimately show ?thesis
    using assms(2,4) by (simp add: broadcast_op_def unsqueeze_last_def broadcast_shapes_last1)
qed

lemma pow2_wf: "wf_tensor t \<Longrightarrow> wf_tensor (pow2 t)"
  by (simp add: wf_tensor_def pow2_def)

lemma sub_same_wf:
  "wf_tensor a \<Longrightarrow> wf_tensor b \<Longrightarrow> shape b = shape a \<Longrightarrow>
   wf_tensor \<lparr>shape = shape a, data = map2 f (data a) (data b)\<rparr>"
  by (simp add: wf_tensor_def)

lemma MSE_default:
  assumes "wf_tensor y_true" "wf_tensor y_pred" "shape y_pred = shape y_true" "shape y_true \<noteq> []"
  shows "MSE y_true y_pred occupation IdxNone =
     bind_err (case occupation of
                 None \<Rightarrow> Inr (pow2 \<lparr>shape = shape y_true, data = map2 (\<lambda>x y. x - y) (data y_true) (data y_pred)\<rparr>)
               | Some occ \<Rightarrow> broadcast_op (\<lambda>x y. x * y)
                     (pow2 \<lparr>shape = shape y_true, data = map2 (\<lambda>x y. x - y) (data y_true) (data y_pred)\<rparr>)
                     (unsqueeze_last occ)) (\<lambda>diff.
     Inr (torch_div (sum_list (data diff)) (real (prod_list (shape y_true)))))"
proof -
  have a: "index_list y_true (map int [0..<last (shape y_true)]) = Inr y_true"
    using assms by (simp add: index_list_arange)
  have b: "index_list y_pred (map int [0..<last (shape y_true)]) = Inr y_pred"
    using assms index_list_arange[of y_pred] by simp
  show ?thesis
    using assms
    by (simp add: MSE_def arange_last_def bind_err_def a b broadcast_op_same_shape)
qed

lemma sum_list_sq_diff:
  fixes xs ys :: "real list"
  assumes "length ys = length xs"
  shows "sum_list (map (\<lambda>x. x ^ 2) (map2 (\<lambda>x y. x - y) xs ys)) = (\<Sum>i<length xs. (xs ! i - ys ! i) ^ 2)"
proof -
  have "sum_list (map (\<lambda>x. x ^ 2) (map2 (\<lambda>x y. x - y) xs ys))
        = (\<Sum>i<length xs. map (\<lambda>x. x ^ 2) (map2 (\<lambda>x y. x - y) xs ys) ! i)"
    using assms by (simp add: sum_list_sum_nth lessThan_atLeast0)
  also have "\<dots> = (\<Sum>i<length xs. (xs ! i - ys ! i) ^ 2)"
    using assms by (intro sum.cong) simp_all
  finally show ?thesis .
qed

lemma MSE_unweighted:
  assumes "wf_tensor y_true" "wf_tensor y_pred" "shape y_pred = shape y_true" "shape y_true \<noteq> []"
  shows "MSE y_true y_pred None IdxNone =
     Inr (torch_div (\<Sum>i<prod_list (shape y_true). (data y_true ! i - data y_pred ! i) ^ 2)
                    (real (prod_list (shape y_true))))"
proof -
  have "length (data y_pred) = length (data y_true)" "length (data y_true) = prod_list (shape y_true)"
    using assms by (simp_all add: wf_tensor_def)
  then show ?thesis
    using sum_list_sq_diff[of "data y_pred" "data y_true"]
    by (simp add: MSE_default[OF assms] bind_err_def pow2_def)
qed

lemma MSE_weighted:
  assumes "wf_tensor y_true" "wf_tensor y_pred" "shape y_pred = shape y_true" "shape y_true \<noteq> []"
    and "wf_tensor occ" "shape occ = butlast (shape y_true)"
  shows "MSE y_true y_pred (Some occ) IdxNone =
     Inr (torch_div
            (\<Sum>r<prod_list (butlast (shape y_true)). \<Sum>c<last (shape y_true).
                (data y_true ! (r * last (shape y_true) + c) - data y_pred ! (r * last (shape y_true) + c)) ^ 2
                * data occ ! r)
            (real (prod_list (shape y_true))))"
proof -
  let ?n = "last (shape y_true)"
  let ?d = "\<lparr>shape = shape y_true, data = map2 (\<lambda>x y. x - y) (data y_true) (data y_pred)\<rparr>"
  have len: "length (data y_pred) = length (data y_true)" "length (data y_true) = prod_list (shape y_true)"
    "length (data occ) = prod_list (butlast (shape y_true))"
    using assms by (simp_all add: wf_tensor_def)
  have wf: "wf_tensor (pow2 ?d)"
    using len by (simp add: wf_tensor_def pow2_def)
  have sh: "shape (pow2 ?d) = butlast (shape y_true) @ [?n]"
    using assms(4) by (simp add: pow2_def)
  have lsq: "length (data (pow2 ?d)) = length (data occ) * ?n"
    using len assms(4) by (simp add: pow2_def prod_list_butlast_last)
  have nth: "\<And>i. i < prod_list (shape y_true) \<Longrightarrow> data (pow2 ?d) ! i = (data y_true ! i - data y_pred ! i) ^ 2"
    using len by (simp add: pow2_def)
  have "(\<Sum>r<length (data occ). \<Sum>c<?n. data (pow2 ?d) ! (r * ?n + c) * data occ ! r)
      = (\<Sum>r<length (data occ). \<Sum>c<?n. (data y_true ! (r * ?n + c) - data y_pred ! (r * ?n + c)) ^ 2 * data occ ! r)"
  proof (intro sum.cong refl)
    fix r c assume "r \<in> {..<length (data occ)}" "c \<in> {..<?n}"
    then have "r * ?n + c < Suc r * ?n" "Suc r \<le> length (data occ)"
      by simp_all
    moreover have "Suc r \<le> length (data occ) \<Longrightarrow> Suc r * ?n \<le> length (data occ) * ?n"
      by (rule mult_le_mono1)
    ultimately have "r * ?n + c < Suc r * ?n" "Suc r * ?n \<le> length (data occ) * ?n"
      by blast+
    then have "r * ?n + c < prod_list (shape y_true)"
      using lsq len by (simp add: pow2_def)
    then show "data (pow2 ?d) ! (r * ?n + c) * data occ ! r
      = (data y_true ! (r * ?n + c) - data y_pred ! (r * ?n + c)) ^ 2 * data occ ! r"
      by (simp add: nth)
  qed
  then show ?thesis
    using sum_list_weighted_rows[OF lsq] len(3)
    by (simp add: MSE_default[OF assms(1-4)] broadcast_op_unsqueeze[OF wf sh assms(5,6)] bind_err_def)
qed

lemma concat_replicate_ones: "concat (replicate r (replicate k x)) = replicate (r * k) x"
  by (induction r) (auto simp: replicate_add)

lemma map2_mult_ones:
  fixes xs :: "real list"
  shows "length xs = n \<Longrightarrow> map2 (\<lambda>x y. x * y) xs (replicate n 1) = xs"
  by (induction xs arbitrary: n) auto

lemma broadcast_ones:
  assumes "wf_tensor sq" "shape sq = lead @ [k]"
  shows "broadcast_op (\<lambda>x y. x * y) sq (unsqueeze_last (ones lead)) = Inr sq"
proof -
  have wo: "wf_tensor (ones lead)" "shape (ones lead) = lead"
    by (simp_all add: ones_def wf_tensor_def)
  have "length (data sq) = prod_list lead * k"
    using assms by (simp add: wf_tensor_def)
  then have "map2 (\<lambda>x y. x * y) (data sq) (concat (map (replicate k) (data (ones lead)))) = data sq"
    by (simp add: ones_def concat_replicate_ones map2_mult_ones)
  then show ?thesis
    using assms(2) by (simp add: broadcast_op_unsqueeze[OF assms wo])
qed

lemma MSE_list_ones:
  assumes "wf_tensor y_true" "wf_tensor y_pred" "shape y_pred = shape y_true"
  shows "bind_err (getitem_last y_true (IdxList ks)) (\<lambda>a.
     bind_err (getitem_last y_pred (IdxList ks)) (\<lambda>b.
     bind_err (broadcast_op (\<lambda>x y. x - y) a b) (\<lambda>d.
     bind_err (broadcast_op (\<lambda>x y. x * y) (pow2 d) (unsqueeze_last (ones (butlast (shape y_true))))) (\<lambda>diff.
     Inr (torch_div (sum_list (data diff)) n)))))
   = bind_err (getitem_last y_true (IdxList ks)) (\<lambda>a.
     bind_err (getitem_last y_pred (IdxList ks)) (\<lambda>b.
     bind_err (broadcast_op (\<lambda>x y. x - y) a b) (\<lambda>d.
     bind_err (Inr (pow2 d)) (\<lambda>diff.
     Inr (torch_div (sum_list (data diff)) n)))))"
proof (cases "index_list y_true ks")
  case (Inl e)
  then show ?thesis by (simp add: bind_err_def)
next
  case a: (Inr a)
  show ?thesis
  proof (cases "index_list y_pred ks")
    case (Inl e)
    then show ?thesis using a by (simp add: bind_err_def)
  next
    case b: (Inr b)
    have wa: "wf_tensor a" "shape a = butlast (shape y_true) @ [length ks]"
      using index_list_wf[OF a] by simp_all
    have wb: "wf_tensor b" "shape b = shape a"
      using index_list_wf[OF b] wa assms(3) by simp_all
    let ?d = "\<lparr>shape = shape a, data = map2 (\<lambda>x y. x - y) (data a) (data b)\<rparr>"
    have d: "broadcast_op (\<lambda>x y. x - y) a b = Inr ?d"
      using wa(1) wb by (rule broadcast_op_same_shape)
    have "wf_tensor (pow2 ?d)" "shape (pow2 ?d) = butlast (shape y_true) @ [length ks]"
      using wa wb by (simp_all add: pow2_def wf_tensor_def)
    then have "broadcast_op (\<lambda>x y. x * y) (pow2 ?d) (unsqueeze_last (ones (butlast (shape y_true)))) = Inr (pow2 ?d)"
      by (rule broadcast_ones)
    then show ?thesis
      using a b d by (simp add: bind_err_def)
  qed
qed

subsection \<open>The claims about MSE\<close>

text \<open>
  C2, as the code has it (in exact arithmetic: the elements are real numbers, and the code
  returns this value whenever float32 neither rounds nor overflows on the way). For tensors
  \<open>y_true\<close> and \<open>y_pred\<close> of one shape with at least one axis, default column selection and
  no occupation, \<open>MSE\<close> returns the sum of the squared elementwise differences divided by the
  element count of \<open>y_true\<close>; for \<open>[[1,2],[3,4]]\<close> and \<open>[[1,2],[3,5]]\<close> that is 0.25. With an
  occupation of the shape of \<open>y_true\<close> without its last axis, one weight per row of the last
  axis, the squared differences of row \<open>r\<close> are multiplied by weight \<open>r\<close> before summing, and
  the divisor is still the element count of \<open>y_true\<close>. A tensor without an axis raises
  \<open>IndexError\<close>.
\<close>

theorem MSE_spec:
  "(wf_tensor y_true \<and> wf_tensor y_pred \<and> shape y_pred = shape y_true \<and> shape y_true \<noteq> [] \<longrightarrow>
      MSE y_true y_pred None IdxNone =
        Inr (torch_div (\<Sum>i<prod_list (shape y_true). (data y_true ! i - data y_pred ! i) ^ 2)
                       (real (prod_list (shape y_true)))))
   \<and> MSE \<lparr>shape = [2, 2], data = [1, 2, 3, 4]\<rparr> \<lparr>shape = [2, 2], data = [1, 2, 3, 5]\<rparr> None IdxNone
       = Inr (Finite 0.25)
   \<and> (wf_tensor y_true \<and> wf_tensor y_pred \<and> shape y_pred = shape y_true \<and> shape y_true \<noteq> []
       \<and> wf_tensor occupation \<and> shape occupation = butlast (shape y_true) \<longrightarrow>
      MSE y_true y_pred (Some occupation) IdxNone =
        Inr (torch_div
              (\<Sum>r<prod_list (butlast (shape y_true)). \<Sum>c<last (shape y_true).
                 (data y_true ! (r * last (shape y_true) + c)
                  - data y_pred ! (r * last (shape y_true) + c)) ^ 2 * data occupation ! r)
              (real (prod_list (shape y_true)))))
   \<and> (shape y_true = [] \<longrightarrow> MSE y_true y_pred opt_occupation IdxNone = Inl IndexError)"
proof -
  have "MSE \<lparr>shape = [2, 2], data = [1, 2, 3, 4]\<rparr> \<lparr>shape = [2, 2], data = [1, 2, 3, 5]\<rparr> None IdxNone
       = Inr (Finite 0.25)"
    by code_simp
  moreover have "shape y_true = [] \<longrightarrow> MSE y_true y_pred opt_occupation IdxNone = Inl IndexError"
    by (simp add: MSE_def arange_last_def bind_err_def)
  ultimately show ?thesis
    using MSE_unweighted[of y_true y_pred] MSE_weighted[of y_true y_pred occupation] by blast
qed

text \<open>
  The theorem at \<open>[[1,2],[3,4]]\<close> against \<open>[[1,2],[3,6]]\<close>: one squared difference of 4 over
  four elements, and with the weights 5 and 3 the second row counts three times.
\<close>

theorem MSE_spec_witness:
  "wf_tensor \<lparr>shape = [2, 2], data = [1, 2, 3, 4]\<rparr>
   \<and> wf_tensor \<lparr>shape = [2, 2], data = [1, 2, 3, 6]\<rparr>
   \<and> wf_tensor \<lparr>shape = [2], data = [5, 3]\<rparr>
   \<and> MSE \<lparr>shape = [2, 2], data = [1, 2, 3, 4]\<rparr> \<lparr>shape = [2, 2], data = [1, 2, 3, 6]\<rparr> None IdxNone
       = Inr (Finite 1)
   \<and> MSE \<lparr>shape = [2, 2], data = [1, 2, 3, 4]\<rparr> \<lparr>shape = [2, 2], data = [1, 2, 3, 6]\<rparr>
          (Some \<lparr>shape = [2], data = [5, 3]\<rparr>) IdxNone
       = Inr (Finite 3)"
  using MSE_spec[of "\<lparr>shape = [2, 2], data = [1, 2, 3, 4]\<rparr>" "\<lparr>shape = [2, 2], data = [1, 2, 3, 6]\<rparr>"
                    "\<lparr>shape = [2], data = [5, 3]\<rparr>" None]
  by (simp add: wf_tensor_def torch_div_def numeral_2_eq_2 numeral_3_eq_3 eval_nat_numeral lessThan_Suc)

text \<open>
  C2 as stated fails in two places. A 0-dimensional pair of equal shape raises \<open>IndexError\<close>
  at \<open>y_true.shape[-1]\<close>. And one weight per sample is not what \<open>unsqueeze(-1)\<close> applies when
  the samples are scalars: for \<open>[1, 3]\<close> against \<open>[2, 5]\<close> with the weights \<open>[1, 0]\<close>, the
  weights of shape (2, 1) and the squared differences \<open>[1, 4]\<close> of shape (2) broadcast to
  \<open>[[1, 4], [0, 0]]\<close>, whose sum over the two elements is 5/2, where the first squared
  difference alone, over two, is 1/2.
\<close>

theorem MSE_spec_counterexample:
  "MSE \<lparr>shape = [], data = [1]\<rparr> \<lparr>shape = [], data = [1]\<rparr> None IdxNone = Inl IndexError
   \<and> MSE \<lparr>shape = [2], data = [1, 3]\<rparr> \<lparr>shape = [2], data = [2, 5]\<rparr>
         (Some \<lparr>shape = [2], data = [1, 0]\<rparr>) IdxNone = Inr (Finite (5 / 2))
   \<and> torch_div ((1 - 2) ^ 2 * 1 + (3 - 5) ^ 2 * 0) 2 = Finite (1 / 2)"
proof -
  have "MSE \<lparr>shape = [], data = [1]\<rparr> \<lparr>shape = [], data = [1]\<rparr> None IdxNone = Inl IndexError"
    by code_simp
  moreover have "MSE \<lparr>shape = [2], data = [1, 3]\<rparr> \<lparr>shape = [2], data = [2, 5]\<rparr>
         (Some \<lparr>shape = [2], data = [1, 0]\<rparr>) IdxNone = Inr (Finite (5 / 2))"
    by code_simp
  moreover have "torch_div ((1 - 2) ^ 2 * 1 + (3 - 5) ^ 2 * 0) 2 = Finite (1 / 2)"
    by (simp add: torch_div_def)
  ultimately show ?thesis by blast
qed

text \<open>
  C8, as the code has it. \<open>MSE(y, y)\<close> is exactly 0 for every tensor with at least one axis
  and at least one element.
\<close>

theorem MSE_self_zero:
  assumes "wf_tensor y" "shape y \<noteq> []" "prod_list (shape y) \<noteq> 0"
  shows "MSE y y None IdxNone = Inr (Finite 0)"
  using assms by (simp add: MSE_unweighted torch_div_def)

theorem MSE_self_zero_witness:
  "wf_tensor \<lparr>shape = [2, 2], data = [1, 2, 3, 4]\<rparr>
   \<and> shape \<lparr>shape = [2, 2], data = [1, 2, 3, 4]\<rparr> \<noteq> []
   \<and> prod_list (shape \<lparr>shape = [2, 2], data = [1, 2, 3, 4]\<rparr>) \<noteq> 0
   \<and> MSE \<lparr>shape = [2, 2], data = [1, 2, 3, 4]\<rparr> \<lparr>shape = [2, 2], data = [1, 2, 3, 4]\<rparr> None IdxNone
       = Inr (Finite 0)"
  using MSE_self_zero[of "\<lparr>shape = [2, 2], data = [1, 2, 3, 4]\<rparr>"]
  by (simp add: wf_tensor_def)

text \<open>
  C8 as stated fails for an empty tensor: for an empty batch of two columns the sum and
  the element count are both zero and their quotient is \<open>nan\<close>, not 0.
\<close>

theorem MSE_self_empty_counterexample:
  "MSE \<lparr>shape = [0, 2], data = []\<rparr> \<lparr>shape = [0, 2], data = []\<rparr> None IdxNone = Inr NaN
   \<and> MSE \<lparr>shape = [0, 2], data = []\<rparr> \<lparr>shape = [0, 2], data = []\<rparr> None IdxNone \<noteq> Inr (Finite 0)"
proof -
  have "MSE \<lparr>shape = [0, 2], data = []\<rparr> \<lparr>shape = [0, 2], data = []\<rparr> None IdxNone = Inr NaN"
    by code_simp
  then show ?thesis by simp
qed

text \<open>
  C9, as the code has it. For tensors of one shape and a column selection that is absent
  or a list of indices (or the integer 0, which the code takes for absent), \<open>MSE\<close> with an
  occupation of ones, one per row of the last axis, returns what \<open>MSE\<close> without occupation
  returns, an error included.
\<close>

theorem MSE_ones_occupation:
  assumes "wf_tensor y_true" "wf_tensor y_pred" "shape y_pred = shape y_true"
    and "\<forall>k. idx_label = IdxInt k \<longrightarrow> k = 0"
  shows "MSE y_true y_pred (Some (ones (butlast (shape y_true)))) idx_label
         = MSE y_true y_pred None idx_label"
proof (cases "if truthy idx_label then Inr idx_label else arange_last y_true")
  case (Inl e)
  then show ?thesis by (simp add: MSE_def bind_err_def)
next
  case (Inr idx)
  then obtain ks where "idx = IdxList ks"
    using assms(4) by (cases idx_label) (auto simp: arange_last_def split: if_splits)
  then have idx: "(if truthy idx_label then Inr idx_label else arange_last y_true) = Inr (IdxList ks)"
    using Inr by simp
  have bind_Inr: "\<And>x f. bind_err (Inr x) f = f x"
    by (simp add: bind_err_def)
  show ?thesis
    unfolding MSE_def idx
    by (simp only: bind_Inr option.case MSE_list_ones[OF assms(1-3)])
qed

theorem MSE_ones_occupation_witness:
  "wf_tensor \<lparr>shape = [2, 2], data = [0, 1, 0, 0]\<rparr>
   \<and> wf_tensor \<lparr>shape = [2, 2], data = [0, 0, 0, 0]\<rparr>
   \<and> MSE \<lparr>shape = [2, 2], data = [0, 1, 0, 0]\<rparr> \<lparr>shape = [2, 2], data = [0, 0, 0, 0]\<rparr>
          (Some (ones [2])) (IdxList [1])
     = MSE \<lparr>shape = [2, 2], data = [0, 1, 0, 0]\<rparr> \<lparr>shape = [2, 2], data = [0, 0, 0, 0]\<rparr>
          None (IdxList [1])"
  using MSE_ones_occupation[of "\<lparr>shape = [2, 2], data = [0, 1, 0, 0]\<rparr>"
          "\<lparr>shape = [2, 2], data = [0, 0, 0, 0]\<rparr>" "IdxList [1]"]
  by (simp add: wf_tensor_def)

text \<open>
  C9 as stated fails for a column selected by a plain integer: \<open>y[..., 1]\<close> has lost its last
  axis, the unsqueezed occupation of shape (2, 1) then broadcasts the two differences to a
  2 by 2 tensor, and the sum doubles.
\<close>

theorem MSE_ones_occupation_counterexample:
  "MSE \<lparr>shape = [2, 2], data = [0, 1, 0, 0]\<rparr> \<lparr>shape = [2, 2], data = [0, 0, 0, 0]\<rparr>
       (Some (ones [2])) (IdxInt 1) = Inr (Finite (1 / 2))
   \<and> MSE \<lparr>shape = [2, 2], data = [0, 1, 0, 0]\<rparr> \<lparr>shape = [2, 2], data = [0, 0, 0, 0]\<rparr>
       None (IdxInt 1) = Inr (Finite (1 / 4))"
proof -
  have "MSE \<lparr>shape = [2, 2], data = [0, 1, 0, 0]\<rparr> \<lparr>shape = [2, 2], data = [0, 0, 0, 0]\<rparr>
       (Some (ones [2])) (IdxInt 1) = Inr (Finite (1 / 2))"
    by code_simp
  moreover have "MSE \<lparr>shape = [2, 2], data = [0, 1, 0, 0]\<rparr> \<lparr>shape = [2, 2], data = [0, 0, 0, 0]\<rparr>
       None (IdxInt 1) = Inr (Finite (1 / 4))"
    by code_simp
  ultimately show ?thesis by blast
qed

text \<open>
  C10. A falsy \<open>idx_label\<close>, the integer 0 or the empty list, is replaced by the full column
  range: the result is that of the call without \<open>idx_label\<close>. On \<open>[[1,2],[3,4]]\<close> against
  \<open>[[1,2],[3,5]]\<close> the integer 0 therefore gives the 0.25 of all columns, where column 0
  alone, selected by the list \<open>[0]\<close>, gives 0.
\<close>

theorem MSE_falsy_idx_label:
  "MSE y_true y_pred occupation (IdxInt 0) = MSE y_true y_pred occupation IdxNone
   \<and> MSE y_true y_pred occupation (IdxList []) = MSE y_true y_pred occupation IdxNone
   \<and> MSE \<lparr>shape = [2, 2], data = [1, 2, 3, 4]\<rparr> \<lparr>shape = [2, 2], data = [1, 2, 3, 5]\<rparr> None (IdxInt 0)
       = Inr (Finite (1 / 4))
   \<and> MSE \<lparr>shape = [2, 2], data = [1, 2, 3, 4]\<rparr> \<lparr>shape = [2, 2], data = [1, 2, 3, 5]\<rparr> None (IdxList [0])
       = Inr (Finite 0)"
proof -
  have "MSE y_true y_pred occupation (IdxInt 0) = MSE y_true y_pred occupation IdxNone"
    by (simp add: MSE_def)
  moreover have "MSE y_true y_pred occupation (IdxList []) = MSE y_true y_pred occupation IdxNone"
    by (simp add: MSE_def)
  moreover have "MSE \<lparr>shape = [2, 2], data = [1, 2, 3, 4]\<rparr> \<lparr>shape = [2, 2], data = [1, 2, 3, 5]\<rparr> None (IdxInt 0)
       = Inr (Finite (1 / 4))"
    by code_simp
  moreover have "MSE \<lparr>shape = [2, 2], data = [1, 2, 3, 4]\<rparr> \<lparr>shape = [2, 2], data = [1, 2, 3, 5]\<rparr> None (IdxList [0])
       = Inr (Finite 0)"
    by code_simp
  ultimately show ?thesis by blast
qed

theorem MSE_falsy_idx_label_witness:
  "MSE \<lparr>shape = [2], data = [1, 3]\<rparr> \<lparr>shape = [2], data = [2, 5]\<rparr> None (IdxInt 0)
     = MSE \<lparr>shape = [2], data = [1, 3]\<rparr> \<lparr>shape = [2], data = [2, 5]\<rparr> None IdxNone
   \<and> MSE \<lparr>shape = [2], data = [1, 3]\<rparr> \<lparr>shape = [2], data = [2, 5]\<rparr> None (IdxList [])
     = MSE \<lparr>shape = [2], data = [1, 3]\<rparr> \<lparr>shape = [2], data = [2, 5]\<rparr> None IdxNone"
  using MSE_falsy_idx_label[of "\<lparr>shape = [2], data = [1, 3]\<rparr>" "\<lparr>shape = [2], data = [2, 5]\<rparr>" None]
  by simp

section \<open>Verification of download\_from\_url\<close>

lemma write_chunks_concat: "write_chunks cs content = content @ concat cs"
  by (induction cs arbitrary: content) auto

text \<open>
  C5. When the first response is successful and names a file that exists in the destination
  folder with at least the advertised size, \<open>download_from_url\<close> returns that size, the one
  request it has sent is the first, and the file system is as before.
\<close>

theorem download_complete_file:
  assumes "ok (srv (requests w) (Get u [(''referer'', u)] True))"
    and "content_disposition (srv (requests w) (Get u [(''referer'', u)] True)) = Some cd"
    and "find_filename cd = Some name"
    and "content_length (srv (requests w) (Get u [(''referer'', u)] True)) = Some cl"
    and "py_int cl = Inr total_size"
    and "files w (joinpath folder name) = Some content"
    and "total_size \<le> int (length content)"
  shows "download_from_url srv u folder w
         = (Inr total_size, w\<lparr>requests := requests w @ [Get u [(''referer'', u)] True]\<rparr>)"
  using assms by (simp add: download_from_url_def session_send_def)

theorem download_complete_file_witness:
  "download_from_url demo_server ''http://host/x'' [''d''] (demo_world ''abcde'')
   = (Inr 5, (demo_world ''abcde'')\<lparr>requests :=
        requests (demo_world ''abcde'') @ [Get ''http://host/x'' [(''referer'', ''http://host/x'')] True]\<rparr>)"
proof -
  have "find_filename ''attachment; filename=f.csv'' = Some ''f.csv''"
    by code_simp
  moreover have "py_int ''5'' = Inr 5"
    by code_simp
  ultimately show ?thesis
    by (intro download_complete_file[where cd = "''attachment; filename=f.csv''" and cl = "''5''"
          and name = "''f.csv''" and content = "''abcde''"])
       (simp_all add: demo_server_def demo_world_def joinpath_def)
qed

text \<open>
  C6, as the code has it. When the local file is shorter than the advertised size, the second
  request carries \<open>Range: bytes=<local size>-<total size>\<close>, whatever its outcome; when it
  succeeds the chunks received are appended to the file, whose size is then the local size
  plus the number of bytes received: the total size exactly when the response carried the
  missing bytes. When it does not succeed the assertion fails and the file is as before.
\<close>

theorem download_resume:
  assumes "ok (srv (requests w) (Get u [(''referer'', u)] True))"
    and "content_disposition (srv (requests w) (Get u [(''referer'', u)] True)) = Some cd"
    and "find_filename cd = Some name"
    and "content_length (srv (requests w) (Get u [(''referer'', u)] True)) = Some cl"
    and "py_int cl = Inr total_size"
    and "files w (joinpath folder name) = Some content"
    and "int (length content) < total_size"
    and "rq = Get u [(''Range'', ''bytes='' @ py_str (int (length content)) @ ''-'' @ py_str total_size)] True"
    and "received = concat (chunks (srv (requests w @ [Get u [(''referer'', u)] True]) rq))"
  shows "requests (snd (download_from_url srv u folder w))
         = requests w @ [Get u [(''referer'', u)] True, rq]
     \<and> (ok (srv (requests w @ [Get u [(''referer'', u)] True]) rq) \<longrightarrow>
         download_from_url srv u folder w
         = (Inr total_size,
            w\<lparr>requests := requests w @ [Get u [(''referer'', u)] True, rq],
              files := (files w)(joinpath folder name \<mapsto> content @ received)\<rparr>))
     \<and> (\<not> ok (srv (requests w @ [Get u [(''referer'', u)] True]) rq) \<longrightarrow>
         download_from_url srv u folder w
         = (Inl AssertionError, w\<lparr>requests := requests w @ [Get u [(''referer'', u)] True, rq]\<rparr>))
     \<and> (int (length (content @ received)) = total_size
          \<longleftrightarrow> int (length received) = total_size - int (length content))"
proof -
  have sent: "requests (snd (download_from_url srv u folder w))
         = requests w @ [Get u [(''referer'', u)] True, rq]"
    using assms
    by (simp add: download_from_url_def session_send_def range_header_def open_append_def Let_def)
  have good: "download_from_url srv u folder w
         = (Inr total_size,
            w\<lparr>requests := requests w @ [Get u [(''referer'', u)] True, rq],
              files := (files w)(joinpath folder name \<mapsto> content @ received)\<rparr>)"
    if "ok (srv (requests w @ [Get u [(''referer'', u)] True]) rq)"
    using assms that
    by (simp add: download_from_url_def session_send_def range_header_def open_append_def
        write_chunks_concat Let_def)
  have bad: "download_from_url srv u folder w
         = (Inl AssertionError, w\<lparr>requests := requests w @ [Get u [(''referer'', u)] True, rq]\<rparr>)"
    if "\<not> ok (srv (requests w @ [Get u [(''referer'', u)] True]) rq)"
    using assms that
    by (simp add: download_from_url_def session_send_def range_header_def Let_def)
  have "int (length (content @ received)) = total_size
        \<longleftrightarrow> int (length received) = total_size - int (length content)"
    by auto
  with sent good bad show ?thesis by blast
qed

theorem download_resume_witness:
  "download_from_url demo_server ''http://host/x'' [''d''] (demo_world ''ab'')
   = (Inr 5,
      (demo_world ''ab'')\<lparr>requests := requests (demo_world ''ab'')
          @ [Get ''http://host/x'' [(''referer'', ''http://host/x'')] True,
             Get ''http://host/x'' [(''Range'', ''bytes=2-5'')] True],
        files := (files (demo_world ''ab''))([''d'', ''f.csv''] \<mapsto> ''ababcde'')\<rparr>)"
proof -
  have "find_filename ''attachment; filename=f.csv'' = Some ''f.csv''"
    by code_simp
  moreover have "py_int ''5'' = Inr 5"
    by code_simp
  moreover have "py_str 2 = ''2''" "py_str 5 = ''5''"
    by code_simp+
  ultimately show ?thesis
    using download_resume[where srv = demo_server and w = "demo_world ''ab''" and u = "''http://host/x''"
          and folder = "[''d'']" and cd = "''attachment; filename=f.csv''" and cl = "''5''"
          and name = "''f.csv''" and content = "''ab''" and total_size = 5
          and rq = "Get ''http://host/x'' [(''Range'', ''bytes=2-5'')] True"
          and received = "''abcde''"]
    by (simp add: demo_server_def demo_world_def joinpath_def)
qed

text \<open>
  C6 as stated fails against a server that ignores the range and sends the whole file: two
  bytes were there, five are appended, and the file ends with 7 bytes where the total is 5.
\<close>

theorem download_resume_counterexample:
  "fst (download_from_url demo_server ''http://host/x'' [''d''] (demo_world ''ab'')) = Inr 5
   \<and> requests (snd (download_from_url demo_server ''http://host/x'' [''d''] (demo_world ''ab'')))
       = [Get ''http://host/x'' [(''referer'', ''http://host/x'')] True,
          Get ''http://host/x'' [(''Range'', ''bytes=2-5'')] True]
   \<and> map_option length
        (files (snd (download_from_url demo_server ''http://host/x'' [''d''] (demo_world ''ab'')))
           [''d'', ''f.csv'']) = Some 7"
  by code_simp

section \<open>Verification of npz\_check\<close>

lemma npz_check_presence_keeps:
  assumes "npz_check_presence d a w = (r, w1)"
  shows "requests w1 = requests w \<and> environ w1 = environ w \<and> dotenv w1 = dotenv w"
  using assms
  by (auto simp: npz_check_presence_def makedirs_def Let_def split: if_splits sum.splits)

lemma login_missing_credentials:
  assumes "ok (srv (requests w) (Get login_url [] False))"
    and "csrf_tokens (srv (requests w) (Get login_url [] False)) \<noteq> []"
    and "(dotenv w ++ environ w) ''CHALLENGE_USER_NAME'' = None
         \<or> (dotenv w ++ environ w) ''CHALLENGE_USER_PASSWORD'' = None"
  shows "login srv w = (Inl ValueError,
           w\<lparr>requests := requests w @ [Get login_url [] False], environ := dotenv w ++ environ w\<rparr>)"
proof -
  obtain t ts where "remdups (csrf_tokens (srv (requests w) (Get login_url [] False))) = t # ts"
    using assms(2) by (cases "remdups (csrf_tokens (srv (requests w) (Get login_url [] False)))") auto
  then show ?thesis
    using assms(1,3)
    by (auto simp: login_def session_send_def load_dotenv_def Let_def split: option.splits)
qed

text \<open>
  C3, as the code has it. When files have to be downloaded and a credential variable is in
  neither the environment nor the dotenv file, \<open>npz_check\<close> raises \<open>ValueError\<close> after exactly
  one request, the GET of the login page, once that request has succeeded and its markup
  holds a token: no login is posted and no download is requested.
\<close>

theorem npz_check_missing_credentials:
  assumes "npz_check_presence d (joinpath d (out @ ''.npz'')) w = (Inr (to_download, flag), w1)"
    and "to_download \<noteq> []"
    and "(dotenv w ++ environ w) ''CHALLENGE_USER_NAME'' = None
         \<or> (dotenv w ++ environ w) ''CHALLENGE_USER_PASSWORD'' = None"
    and "ok (srv (requests w) (Get login_url [] False))"
    and "csrf_tokens (srv (requests w) (Get login_url [] False)) \<noteq> []"
  shows "npz_check ext srv d out w
         = (Inl ValueError,
            w1\<lparr>requests := requests w @ [Get login_url [] False],
               environ := dotenv w ++ environ w\<rparr>)"
proof -
  have keep: "requests w1 = requests w" "environ w1 = environ w" "dotenv w1 = dotenv w"
    using npz_check_presence_keeps[OF assms(1)] by simp_all
  have "login srv w1 = (Inl ValueError,
           w1\<lparr>requests := requests w1 @ [Get login_url [] False], environ := dotenv w1 ++ environ w1\<rparr>)"
    using assms(3-5) keep by (intro login_missing_credentials) simp_all
  then show ?thesis
    using assms(1,2) keep by (simp add: npz_check_def)
qed

theorem npz_check_missing_credentials_witness:
  "npz_check demo_ext demo_server [''dataset''] ''dataset'' empty_dir_world
   = (Inl ValueError,
      empty_dir_world\<lparr>requests := requests empty_dir_world @ [Get login_url [] False],
        environ := dotenv empty_dir_world ++ environ empty_dir_world\<rparr>)"
proof -
  have "npz_check_presence [''dataset''] (joinpath [''dataset''] (''dataset'' @ ''.npz'')) empty_dir_world
        = (Inr ([x_test, x_train, y_train], True), empty_dir_world)"
    by (simp add: npz_check_presence_def is_dir_def is_file_def empty_dir_world_def)
  then show ?thesis
    by (rule npz_check_missing_credentials) (simp_all add: empty_dir_world_def demo_server_def)
qed

text \<open>
  C3 as stated fails: with no dataset directory and no credentials the error is raised, but
  the request log, empty before the call, then holds the GET of the login page.
\<close>

theorem npz_check_request_before_error_counterexample:
  "requests no_dir_world = []
   \<and> environ no_dir_world ''CHALLENGE_USER_NAME'' = None
   \<and> fst (npz_check demo_ext demo_server [''dataset''] ''dataset'' no_dir_world) = Inl ValueError
   \<and> requests (snd (npz_check demo_ext demo_server [''dataset''] ''dataset'' no_dir_world))
       = [Get ''https://challengedata.ens.fr/login/'' [] False]"
  by code_simp

text \<open>
  C7. When nothing exists at the dataset path, the directory is created, the three remote
  files are to be downloaded and the archive is to be built (the creation fails, and nothing
  is reported, only where an ancestor of the path is a regular file); the same three files
  and the build are reported for an existing directory with no file in it. When the directory holds
  the feature-test file and the archive, nothing is to be downloaded or built, and
  \<open>npz_check\<close> returns the archive path with no request sent and nothing changed.
\<close>

theorem presence_gate_reports:
  "(\<not> is_dir w d \<and> \<not> is_file w d \<longrightarrow>
      npz_check_presence d (joinpath d (out @ ''.npz'')) w
      = (if \<exists>n<length d. is_file w (take n d) then (Inl NotADirectoryError, w)
         else (Inr ([x_train, y_train, x_test], True),
               w\<lparr>dirs := dirs w \<union> set (map (\<lambda>n. take n d) [0..<Suc (length d)])\<rparr>)))
   \<and> (is_dir w d \<and> (\<forall>n. \<not> is_file w (joinpath d n)) \<longrightarrow>
      npz_check_presence d (joinpath d (out @ ''.npz'')) w
      = (Inr ([x_test, x_train, y_train], True), w))
   \<and> (is_dir w d \<and> is_file w (joinpath d (filename x_test)) \<and> is_file w (joinpath d (out @ ''.npz'')) \<longrightarrow>
      npz_check_presence d (joinpath d (out @ ''.npz'')) w = (Inr ([], False), w)
      \<and> npz_check ext srv d out w = (Inr (joinpath d (out @ ''.npz'')), w))"
  by (auto simp add: npz_check_presence_def npz_check_def makedirs_def is_dir_def is_file_def)

theorem presence_gate_reports_witness:
  "npz_check_presence [''dataset''] (joinpath [''dataset''] (''dataset'' @ ''.npz'')) no_dir_world
     = (Inr ([x_train, y_train, x_test], True),
        no_dir_world\<lparr>dirs := dirs no_dir_world
           \<union> set (map (\<lambda>n. take n [''dataset'']) [0..<Suc (length [''dataset''])])\<rparr>)
   \<and> npz_check_presence [''dataset''] (joinpath [''dataset''] (''dataset'' @ ''.npz'')) empty_dir_world
     = (Inr ([x_test, x_train, y_train], True), empty_dir_world)
   \<and> npz_check_presence [''dataset''] (joinpath [''dataset''] (''dataset'' @ ''.npz'')) built_world
     = (Inr ([], False), built_world)
   \<and> npz_check demo_ext demo_server [''dataset''] ''dataset'' built_world
     = (Inr (joinpath [''dataset''] (''dataset'' @ ''.npz'')), built_world)"
  using presence_gate_reports[of no_dir_world "[''dataset'']" "''dataset''" demo_ext demo_server]
    presence_gate_reports[of empty_dir_world "[''dataset'']" "''dataset''" demo_ext demo_server]
    presence_gate_reports[of built_world "[''dataset'']" "''dataset''" demo_ext demo_server]
  by (simp add: is_dir_def is_file_def no_dir_world_def empty_dir_world_def built_world_def
      joinpath_def x_test_def)

text \<open>
  C4, as the code has it. In an existing directory without the feature-test file, that file
  is to be downloaded, and the check of the archive is made all the same: when the archive
  is absent, the build is marked and each of feature-train and target-train that is absent
  is added; when it is present, neither.
\<close>

theorem presence_gate_independent_checks:
  assumes "is_dir w d" "\<not> is_file w (joinpath d (filename x_test))"
  shows "npz_check_presence d a w
         = (Inr (x_test #
                 (if is_file w a then []
                  else (if is_file w (joinpath d (filename x_train)) then [] else [x_train])
                       @ (if is_file w (joinpath d (filename y_train)) then [] else [y_train])),
                 \<not> is_file w a), w)"
  using assms by (simp add: npz_check_presence_def)

theorem presence_gate_independent_checks_witness:
  "is_dir empty_dir_world [''dataset'']
   \<and> \<not> is_file empty_dir_world (joinpath [''dataset''] (filename x_test))
   \<and> npz_check_presence [''dataset''] [''dataset'', ''dataset.npz''] empty_dir_world
     = (Inr ([x_test, x_train, y_train], True), empty_dir_world)"
  using presence_gate_independent_checks[of empty_dir_world "[''dataset'']" "[''dataset'', ''dataset.npz'']"]
  by (simp add: is_dir_def is_file_def empty_dir_world_def)

text \<open>
  C4 as stated fails: in an existing empty directory the feature-test file is absent, and
  yet the build is marked and both training files are added.
\<close>

theorem presence_gate_else_if_counterexample:
  "is_dir empty_dir_world [''dataset'']
   \<and> \<not> is_file empty_dir_world (joinpath [''dataset''] (filename x_test))
   \<and> fst (npz_check_presence [''dataset''] [''dataset'', ''dataset.npz''] empty_dir_world)
     = Inr ([x_test, x_train, y_train], True)"
  by (simp add: npz_check_presence_def is_dir_def is_file_def empty_dir_world_def)

section \<open>Verification of csv2npz\<close>

lemma select_columns_ok:
  assumes "set names \<subseteq> dom (column df)"
  shows "select_columns df names
         = Inr \<lparr>nd_shape = [nrows df, length names],
                nd_data = concat (map (\<lambda>r. map (\<lambda>n. the (column df n) ! r) names) [0..<nrows df])\<rparr>"
proof -
  have "map_err (\<lambda>n. case column df n of None \<Rightarrow> Inl KeyError | Some c \<Rightarrow> Inr c) names
        = Inr (map (\<lambda>n. the (column df n)) names)"
    using assms by (intro map_err_all_ok) auto
  then show ?thesis
    by (simp add: select_columns_def comp_def)
qed

lemma index_bound:
  fixes v t K L :: nat
  assumes "v < L" "t < K"
  shows "v * K + t < L * K"
proof -
  have "v * K + t < Suc v * K" using assms(2) by simp
  also have "\<dots> \<le> L * K" using assms(1) by (intro mult_le_mono1) simp
  finally show ?thesis .
qed

lemma length_concat_rows:
  "(\<And>r. r < m \<Longrightarrow> length (f r) = n) \<Longrightarrow> length (concat (map f [0..<m])) = m * n"
  by (induction m) auto

lemma nth_concat_rows:
  assumes "\<And>r. r < m \<Longrightarrow> length (f r) = n" "r < m" "p < n"
  shows "concat (map f [0..<m]) ! (r * n + p) = f r ! p"
  using assms
proof (induction m)
  case 0
  then show ?case by simp
next
  case (Suc m)
  have len: "length (concat (map f [0..<m])) = m * n"
    using Suc.prems(1) by (intro length_concat_rows) simp
  show ?case
  proof (cases "r < m")
    case True
    then have "r * n + p < m * n"
      using Suc.prems(3) by (rule index_bound)
    moreover have "concat (map f [0..<m]) ! (r * n + p) = f r ! p"
      using Suc.prems True by (intro Suc.IH) simp_all
    ultimately show ?thesis
      using len by (simp add: nth_append)
  next
    case False
    then have "r = m" using Suc.prems(2) by simp
    then show ?thesis
      using len by (simp add: nth_append)
  qed
qed

lemma ts_columns_rows:
  "ts_columns K names
   = concat (map (\<lambda>v. map (\<lambda>i. names ! v @ ''_'' @ py_str (int i)) [0..<K]) [0..<length names])"
proof -
  have "map (\<lambda>var_name. map (\<lambda>i. var_name @ ''_'' @ py_str (int i)) [0..<K]) names
        = map (\<lambda>v. map (\<lambda>i. names ! v @ ''_'' @ py_str (int i)) [0..<K]) [0..<length names]"
    by (rule nth_equalityI) simp_all
  then show ?thesis by (simp only: ts_columns_def)
qed

lemma length_ts_columns: "length (ts_columns K names) = length names * K"
  unfolding ts_columns_rows by (rule length_concat_rows) simp

lemma nth_ts_columns:
  assumes "v < length names" "t < K"
  shows "ts_columns K names ! (v * K + t) = names ! v @ ''_'' @ py_str (int t)"
proof -
  have "ts_columns K names ! (v * K + t)
        = map (\<lambda>i. names ! v @ ''_'' @ py_str (int i)) [0..<K] ! t"
    unfolding ts_columns_rows using assms by (intro nth_concat_rows) simp_all
  then show ?thesis using assms(2) by simp
qed

text \<open>One block of time series: the columns selected, reshaped and cast.\<close>

lemma ts_block_reshape:
  assumes "set (ts_columns K names) \<subseteq> dom (column df)" "0 < nrows df" "0 < K"
  shows "bind_err (select_columns df (ts_columns K names)) (reshape_m_K (nrows df) K)
         = Inr \<lparr>nd_shape = [nrows df, length names, K],
                nd_data = concat (map (\<lambda>r. map (\<lambda>n. the (column df n) ! r) (ts_columns K names))
                                      [0..<nrows df])\<rparr>"
proof -
  have "nrows df * (length names * K) = length names * (nrows df * K)"
    by simp
  then have "nrows df * (length names * K) mod (nrows df * K) = 0"
    "nrows df * (length names * K) div (nrows df * K) = length names"
    using assms(2,3) by simp_all
  then show ?thesis
    using assms
    by (simp add: select_columns_ok bind_err_def reshape_m_K_def length_ts_columns Let_def)
qed

lemma ts_block_getitem:
  assumes "s < m" "v < length names" "t < K"
  shows "getitem (astype f \<lparr>nd_shape = [m, length names, K],
                  nd_data = concat (map (\<lambda>r. map (\<lambda>n. the (column df n) ! r) (ts_columns K names)) [0..<m])\<rparr>)
           [s, v, t]
         = Inr (f (the (column df (names ! v @ ''_'' @ py_str (int t))) ! s))"
proof -
  let ?n = "length names * K"
  let ?rows = "\<lambda>r. map (\<lambda>n. the (column df n) ! r) (ts_columns K names)"
  have p: "v * K + t < ?n"
    using assms(2,3) by (rule index_bound)
  have len: "length (concat (map ?rows [0..<m])) = m * ?n"
    by (rule length_concat_rows) (simp add: length_ts_columns)
  have "s * ?n + (v * K + t) < m * ?n"
    using assms(1) p by (rule index_bound)
  then have inb: "s * ?n + (v * K + t) < length (concat (map ?rows [0..<m]))"
    using len by simp
  have "concat (map ?rows [0..<m]) ! (s * ?n + (v * K + t)) = ?rows s ! (v * K + t)"
    using assms(1) p by (intro nth_concat_rows) (simp_all add: length_ts_columns)
  also have "\<dots> = the (column df (ts_columns K names ! (v * K + t))) ! s"
    using p by (simp add: length_ts_columns)
  also have "\<dots> = the (column df (names ! v @ ''_'' @ py_str (int t))) ! s"
    using assms(2,3) by (simp add: nth_ts_columns)
  finally have "concat (map ?rows [0..<m]) ! (s * ?n + (v * K + t))
      = the (column df (names ! v @ ''_'' @ py_str (int t))) ! s" .
  then show ?thesis
    using assms inb by (simp add: getitem_def astype_def)
qed

text \<open>
  C1, as the code has it. For a feature table \<open>x\<close> with \<open>m \<ge> 1\<close> rows, a target table \<open>y\<close> with as
  many rows and labels whose columns the tables have, the arrays are produced, \<open>X\<close> has
  shape \<open>(m, len(X names), 672)\<close> and \<open>Z\<close> has shape \<open>(m, len(Z names), 672)\<close>, and at sample
  \<open>s\<close>, variable \<open>v\<close> and time step \<open>t\<close> the element of \<open>X\<close> is the cast of row \<open>s\<close> of the column
  \<open>name_v_t\<close> of \<open>y\<close>, that of \<open>Z\<close> the cast of row \<open>s\<close> of the column \<open>name_v_t\<close> of \<open>x\<close>.
\<close>

theorem csv2npz_shapes_and_order:
  assumes "wf_frame x" "wf_frame y" "nrows y = nrows x" "0 < nrows x"
    and "labels ''R'' = Some r_names" "labels ''X'' = Some x_names" "labels ''Z'' = Some z_names"
    and "set r_names \<subseteq> dom (column x)"
    and "set (ts_columns TIME_SERIES_LENGTH x_names) \<subseteq> dom (column y)"
    and "set (ts_columns TIME_SERIES_LENGTH z_names) \<subseteq> dom (column x)"
  shows "\<exists>a. csv2npz_arrays cast x y labels = Inr a
     \<and> nd_shape (arch_X a) = [nrows x, length x_names, 672]
     \<and> nd_shape (arch_Z a) = [nrows x, length z_names, 672]
     \<and> (\<forall>s v t col. s < nrows x \<and> v < length x_names \<and> t < 672
           \<and> column y (x_names ! v @ ''_'' @ py_str (int t)) = Some col
           \<longrightarrow> getitem (arch_X a) [s, v, t] = Inr (cast (col ! s)))
     \<and> (\<forall>s v t col. s < nrows x \<and> v < length z_names \<and> t < 672
           \<and> column x (z_names ! v @ ''_'' @ py_str (int t)) = Some col
           \<longrightarrow> getitem (arch_Z a) [s, v, t] = Inr (cast (col ! s)))"
proof -
  let ?K = TIME_SERIES_LENGTH
  let ?m = "nrows x"
  let ?block = "\<lambda>df names. \<lparr>nd_shape = [?m, length names, ?K],
      nd_data = concat (map (\<lambda>r. map (\<lambda>n. the (column df n) ! r) (ts_columns ?K names)) [0..<?m])\<rparr>"
  have K: "0 < ?K" "?K = 672"
    by (simp_all add: TIME_SERIES_LENGTH_def)
  have X: "bind_err (select_columns y (ts_columns ?K x_names)) (reshape_m_K ?m ?K) = Inr (?block y x_names)"
    using ts_block_reshape[of ?K x_names y] assms(3,4,9) K(1) by simp
  have Z: "bind_err (select_columns x (ts_columns ?K z_names)) (reshape_m_K ?m ?K) = Inr (?block x z_names)"
    using ts_block_reshape[of ?K z_names x] assms(4,10) K(1) by simp
  obtain X0 where X0: "select_columns y (ts_columns ?K x_names) = Inr X0"
    using assms(9) by (simp add: select_columns_ok)
  obtain Z0 where Z0: "select_columns x (ts_columns ?K z_names) = Inr Z0"
    using assms(10) by (simp add: select_columns_ok)
  obtain R0 where R0: "select_columns x r_names = Inr R0"
    using assms(8) by (simp add: select_columns_ok)
  have X1: "reshape_m_K ?m ?K X0 = Inr (?block y x_names)"
    using X X0 by (simp add: bind_err_def)
  have Z1: "reshape_m_K ?m ?K Z0 = Inr (?block x z_names)"
    using Z Z0 by (simp add: bind_err_def)
  let ?a = "\<lparr>arch_R = astype cast R0, arch_X = astype cast (?block y x_names),
            arch_Z = astype cast (?block x z_names)\<rparr>"
  have res: "csv2npz_arrays cast x y labels = Inr ?a"
    using assms(5-7) R0 X0 Z0 X1 Z1
    by (simp add: csv2npz_arrays_def lookup_def bind_err_def Let_def)
  have gx: "\<And>s v t col. s < ?m \<Longrightarrow> v < length x_names \<Longrightarrow> t < ?K \<Longrightarrow>
      column y (x_names ! v @ ''_'' @ py_str (int t)) = Some col \<Longrightarrow>
      getitem (arch_X ?a) [s, v, t] = Inr (cast (col ! s))"
    using ts_block_getitem[of _ ?m _ x_names _ ?K cast y] by simp
  have gz: "\<And>s v t col. s < ?m \<Longrightarrow> v < length z_names \<Longrightarrow> t < ?K \<Longrightarrow>
      column x (z_names ! v @ ''_'' @ py_str (int t)) = Some col \<Longrightarrow>
      getitem (arch_Z ?a) [s, v, t] = Inr (cast (col ! s))"
    using ts_block_getitem[of _ ?m _ z_names _ ?K cast x] by simp
  have sh: "nd_shape (arch_X ?a) = [?m, length x_names, 672]"
    "nd_shape (arch_Z ?a) = [?m, length z_names, 672]"
    using K(2) by (simp_all add: astype_def)
  show ?thesis
    using res sh gx gz K(2) by (intro exI[of _ ?a]) (simp del: getitem_def)
qed

subsection \<open>Decimal numerals are unambiguous\<close>

lemma digit_val_nth: "d < 10 \<Longrightarrow> digit_val (''0123456789'' ! d) = d"
proof -
  assume "d < 10"
  then consider "d = 0" | "d = 1" | "d = 2" | "d = 3" | "d = 4" | "d = 5" | "d = 6" | "d = 7"
    | "d = 8" | "d = 9"
    by atomize_elim arith
  then show ?thesis
    by cases (simp_all add: digit_val_def)
qed

lemma undigits_digits: "foldl (\<lambda>acc c. acc * 10 + digit_val c) 0 (digits n) = n"
proof (induction n rule: digits.induct)
  case (1 n)
  show ?case
  proof (cases "n < 10")
    case True
    then show ?thesis
      by (subst digits.simps) (simp add: digit_val_nth)
  next
    case False
    then have "foldl (\<lambda>acc c. acc * 10 + digit_val c) 0 (digits (n div 10)) = n div 10"
      by (rule "1.IH")
    then show ?thesis
      using False by (subst digits.simps) (simp add: digit_val_nth)
  qed
qed

lemma py_str_nat_inj: "py_str (int a) = py_str (int b) \<Longrightarrow> a = b"
proof -
  assume "py_str (int a) = py_str (int b)"
  then have "digits a = digits b"
    by (simp add: py_str_def)
  then show "a = b"
    using undigits_digits[of a] undigits_digits[of b] by simp
qed

lemma demo_cell:
  assumes "t < TIME_SERIES_LENGTH"
  shows "column (demo_frame m v) (v @ ''_'' @ py_str (int t)) = Some (map (\<lambda>s. real (1000 * s + t)) [0..<m])"
proof -
  let ?f = "\<lambda>t. (v @ ''_'' @ py_str (int t), map (\<lambda>s. real (1000 * s + t)) [0..<m])"
  have "inj_on (\<lambda>t. v @ ''_'' @ py_str (int t)) (set [0..<TIME_SERIES_LENGTH])"
    by (rule inj_onI) (simp add: py_str_nat_inj)
  then have "distinct (map fst (map ?f [0..<TIME_SERIES_LENGTH]))"
    by (simp add: distinct_map comp_def)
  moreover have "t \<in> set [0..<TIME_SERIES_LENGTH]"
    using assms by simp
  then have "?f t \<in> ?f ` set [0..<TIME_SERIES_LENGTH]"
    by (rule imageI)
  then have "?f t \<in> set (map ?f [0..<TIME_SERIES_LENGTH])"
    by (simp only: set_map)
  ultimately have "map_of (map ?f [0..<TIME_SERIES_LENGTH]) (v @ ''_'' @ py_str (int t))
      = Some (map (\<lambda>s. real (1000 * s + t)) [0..<m])"
    by (intro map_of_is_SomeI) simp_all
  then show ?thesis
    by (simp add: demo_frame_def map_add_Some_iff)
qed

lemma demo_frame_wf: "wf_frame (demo_frame m v)"
proof -
  have "\<And>c. c \<in> ran (column (demo_frame m v)) \<Longrightarrow> length c = m"
  proof -
    fix c assume "c \<in> ran (column (demo_frame m v))"
    then obtain k where "column (demo_frame m v) k = Some c"
      by (auto simp: ran_def)
    then have "(k, c) \<in> set (map (\<lambda>t. (v @ ''_'' @ py_str (int t), map (\<lambda>s. real (1000 * s + t)) [0..<m]))
                           [0..<TIME_SERIES_LENGTH]
                      @ [(''r'', map real [0..<m])])"
      unfolding demo_frame_def by (intro map_of_SomeD) simp
    then show "length c = m" by auto
  qed
  moreover have "nrows (demo_frame m v) = m"
    by (simp add: demo_frame_def)
  ultimately show ?thesis by (simp add: wf_frame_def)
qed

lemma demo_frame_columns:
  "set (ts_columns TIME_SERIES_LENGTH [v]) \<subseteq> dom (column (demo_frame m v))"
proof
  fix n assume "n \<in> set (ts_columns TIME_SERIES_LENGTH [v])"
  then obtain t where "t < TIME_SERIES_LENGTH" "n = v @ ''_'' @ py_str (int t)"
    by (auto simp: ts_columns_def)
  then show "n \<in> dom (column (demo_frame m v))"
    using demo_cell[of t m v] by auto
qed

lemma demo_frame_r: "set [''r''] \<subseteq> dom (column (demo_frame m v))"
  by (simp add: demo_frame_def)

text \<open>The theorem on two rows of one target variable \<open>a\<close> and one feature variable \<open>z\<close>.\<close>

theorem csv2npz_shapes_and_order_witness:
  "\<exists>a. csv2npz_arrays (\<lambda>v. v) (demo_frame 2 ''z'') (demo_frame 2 ''a'') demo_labels = Inr a
     \<and> nd_shape (arch_X a) = [2, 1, 672]
     \<and> nd_shape (arch_Z a) = [2, 1, 672]
     \<and> getitem (arch_X a) [1, 0, 5] = Inr 1005
     \<and> getitem (arch_Z a) [0, 0, 671] = Inr 671"
proof -
  obtain a where a: "csv2npz_arrays (\<lambda>v. v) (demo_frame 2 ''z'') (demo_frame 2 ''a'') demo_labels = Inr a"
     "nd_shape (arch_X a) = [nrows (demo_frame 2 ''z''), length [''a''], 672]"
     "nd_shape (arch_Z a) = [nrows (demo_frame 2 ''z''), length [''z''], 672]"
     "\<forall>s v t col. s < nrows (demo_frame 2 ''z'') \<and> v < length [''a''] \<and> t < 672
           \<and> column (demo_frame 2 ''a'') ([''a''] ! v @ ''_'' @ py_str (int t)) = Some col
           \<longrightarrow> getitem (arch_X a) [s, v, t] = Inr (col ! s)"
     "\<forall>s v t col. s < nrows (demo_frame 2 ''z'') \<and> v < length [''z''] \<and> t < 672
           \<and> column (demo_frame 2 ''z'') ([''z''] ! v @ ''_'' @ py_str (int t)) = Some col
           \<longrightarrow> getitem (arch_Z a) [s, v, t] = Inr (col ! s)"
    using csv2npz_shapes_and_order[where x = "demo_frame 2 ''z''" and y = "demo_frame 2 ''a''"
        and labels = demo_labels and r_names = "[''r'']" and x_names = "[''a'']" and z_names = "[''z'']"
        and cast = "\<lambda>v. v",
        OF demo_frame_wf demo_frame_wf _ _ _ _ _ demo_frame_r demo_frame_columns demo_frame_columns]
    by (auto simp: demo_labels_def demo_frame_def)
  have n: "nrows (demo_frame 2 ''z'') = 2"
    by (simp add: demo_frame_def)
  have "column (demo_frame 2 ''a'') ([''a''] ! 0 @ ''_'' @ py_str (int 5)) = Some (map (\<lambda>s. real (1000 * s + 5)) [0..<2])"
    using demo_cell[of 5 2 "''a''"] by (simp add: TIME_SERIES_LENGTH_def)
  then have "getitem (arch_X a) [1, 0, 5] = Inr (map (\<lambda>s. real (1000 * s + 5)) [0..<2] ! 1)"
    using a(4) n by simp
  moreover have "column (demo_frame 2 ''z'') ([''z''] ! 0 @ ''_'' @ py_str (int 671)) = Some (map (\<lambda>s. real (1000 * s + 671)) [0..<2])"
    using demo_cell[of 671 2 "''z''"] by (simp add: TIME_SERIES_LENGTH_def)
  then have "getitem (arch_Z a) [0, 0, 671] = Inr (map (\<lambda>s. real (1000 * s + 671)) [0..<2] ! 0)"
    using a(5) n by simp
  ultimately show ?thesis
    using a(1-3) n by (intro exI[of _ a]) simp
qed

text \<open>
  C1 as stated fails for a table without rows: \<open>reshape((0, -1, 672))\<close> cannot infer the
  middle axis and raises \<open>ValueError\<close>, so no array is produced.
\<close>

lemma csv2npz_arrays_no_rows:
  assumes "nrows x = 0" "labels ''R'' = Some r_names" "labels ''X'' = Some x_names"
    and "set r_names \<subseteq> dom (column x)"
    and "set (ts_columns TIME_SERIES_LENGTH x_names) \<subseteq> dom (column y)"
  shows "csv2npz_arrays cast x y labels = Inl ValueError"
  using assms
  by (simp add: csv2npz_arrays_def lookup_def bind_err_def Let_def select_columns_ok reshape_m_K_def)

theorem csv2npz_no_rows_counterexample:
  "nrows (demo_frame 0 ''z'') = 0
   \<and> csv2npz_arrays (\<lambda>v. v) (demo_frame 0 ''z'') (demo_frame 0 ''a'') demo_labels = Inl ValueError"
  using csv2npz_arrays_no_rows[where x = "demo_frame 0 ''z''" and labels = demo_labels
      and r_names = "[''r'']" and x_names = "[''a'']" and y = "demo_frame 0 ''a''"
      and cast = "\<lambda>v. v",
      OF _ _ _ demo_frame_r demo_frame_columns]
  by (simp add: demo_labels_def demo_frame_def)

end
